theory Spec2Isabelle
  imports Main "HOL-Library.Sublist"
begin

section \<open>The relational store\<close>

text \<open>
  The tables of \<^verbatim>\<open>database/schema.sql\<close> that carry the cached counters and their
  fact rows. A table is the list of its rows in insertion order. Primary keys and
  foreign keys are identifiers; \<^verbatim>\<open>uuid_generate_v4()\<close> and the ORM's serial keys
  are both read as "a key that no row of the table has yet" (see \<open>fresh_id\<close>).
  \<^verbatim>\<open>INTEGER\<close> counters are unbounded integers: they may become negative (the
  columns have no CHECK constraint); the 32-bit range error of the store is one of
  the statement failures that the environment record below stands for.

  Column names follow \<^verbatim>\<open>schema.sql\<close>. The single-page frontend is written
  against the reduced schema of the cleanup script, where \<^verbatim>\<open>download_count\<close> is
  called \<^verbatim>\<open>downloads_count\<close> and \<^verbatim>\<open>file_url\<close> is called \<^verbatim>\<open>file_path\<close>;
  the ORM client calls the counters \<^verbatim>\<open>viewCount\<close>, \<^verbatim>\<open>downloadCount\<close>,
  \<^verbatim>\<open>likeCount\<close>. Columns that no modelled operation reads (title, tags, ...)
  are left out.
\<close>

type_synonym ident = int

record model_row =
  m_id :: ident
  m_user_id :: ident
  m_file_url :: "string option"
  m_is_public :: bool
  m_is_free :: bool
  download_count :: int
  view_count :: int
  like_count :: int
  comment_count :: int

record comment_row =
  c_id :: ident
  c_content :: string
  c_model_id :: ident
  c_user_id :: ident

record like_row =
  l_id :: ident
  l_model_id :: ident
  l_user_id :: ident

record view_row =
  v_id :: ident
  v_model_id :: ident
  v_user_id :: "ident option"

record download_row =
  d_id :: ident
  d_model_id :: ident
  d_user_id :: "ident option"
  d_ip_address :: "string option"
  d_user_agent :: "string option"

record store =
  models :: "model_row list"
  comments :: "comment_row list"
  likes :: "like_row list"
  model_views :: "view_row list"
  downloads :: "download_row list"

text \<open>A generated primary key: larger than every key of the table.\<close>

fun fresh_id :: "ident list \<Rightarrow> ident" where
  "fresh_id [] = 1"
| "fresh_id (x # xs) = max (x + 1) (fresh_id xs)"

text \<open>
  What may go wrong outside the program: a failing read, a failing write to a fact
  table (the INSERT or DELETE together with its trigger is one statement and fails
  as a whole), a failing write to \<^verbatim>\<open>public.models\<close> (the explicit counter
  updates of the handlers are such writes), a failing call to the object storage.
\<close>

record env =
  db_read_fails :: bool
  fact_write_fails :: bool
  models_write_fails :: bool
  storage_fails :: bool

datatype db_error =
  statement_failed
| foreign_key_violation
| unique_violation
| record_not_found

subsection \<open>Rows of \<open>public.models\<close>\<close>

text \<open>\<^verbatim>\<open>SELECT ... WHERE id = mid\<close>: the row with this primary key.\<close>

definition model_by_id :: "store \<Rightarrow> ident \<Rightarrow> model_row option" where
  "model_by_id s mid = find (\<lambda>m. m_id m = mid) (models s)"

text \<open>\<^verbatim>\<open>UPDATE public.models SET ... WHERE id = mid\<close>, the assignment given as \<open>f\<close>.\<close>

definition update_models :: "(model_row \<Rightarrow> model_row) \<Rightarrow> ident \<Rightarrow> store \<Rightarrow> store" where
  "update_models f mid s =
     s\<lparr>models := map (\<lambda>m. if m_id m = mid then f m else m) (models s)\<rparr>"

subsection \<open>The counter triggers\<close>

datatype tg_op = INSERT | DELETE | UPDATE

datatype tg_table = Likes | Comments | Downloads | Model_views

text \<open>
  \<^verbatim>\<open>update_model_counts()\<close> of \<^verbatim>\<open>schema.sql\<close>; the third argument is
  \<^verbatim>\<open>NEW.model_id\<close> on INSERT and \<^verbatim>\<open>OLD.model_id\<close> on DELETE.
\<close>

definition update_model_counts :: "tg_op \<Rightarrow> tg_table \<Rightarrow> ident \<Rightarrow> store \<Rightarrow> store" where
  "update_model_counts tg_op tg_table_name model_id s =
     (if tg_op = INSERT then
        (if tg_table_name = Likes then
           update_models (\<lambda>m. m\<lparr>like_count := like_count m + 1\<rparr>) model_id s
         else if tg_table_name = Comments then
           update_models (\<lambda>m. m\<lparr>comment_count := comment_count m + 1\<rparr>) model_id s
         else if tg_table_name = Downloads then
           update_models (\<lambda>m. m\<lparr>download_count := download_count m + 1\<rparr>) model_id s
         else if tg_table_name = Model_views then
           update_models (\<lambda>m. m\<lparr>view_count := view_count m + 1\<rparr>) model_id s
         else s)
      else if tg_op = DELETE then
        (if tg_table_name = Likes then
           update_models (\<lambda>m. m\<lparr>like_count := like_count m - 1\<rparr>) model_id s
         else if tg_table_name = Comments then
           update_models (\<lambda>m. m\<lparr>comment_count := comment_count m - 1\<rparr>) model_id s
         else s)
      else s)"

text \<open>
  \<^verbatim>\<open>update_model_download_count()\<close> of the cleanup script for the reduced schema
  (trigger \<^verbatim>\<open>AFTER INSERT OR DELETE ON downloads\<close>); its DELETE branch is
  \<^verbatim>\<open>GREATEST(downloads_count - 1, 0)\<close>.
\<close>

definition update_model_download_count :: "tg_op \<Rightarrow> ident \<Rightarrow> store \<Rightarrow> store" where
  "update_model_download_count tg_op model_id s =
     (if tg_op = INSERT then
        update_models (\<lambda>m. m\<lparr>download_count := download_count m + 1\<rparr>) model_id s
      else if tg_op = DELETE then
        update_models (\<lambda>m. m\<lparr>download_count := max (download_count m - 1) 0\<rparr>) model_id s
      else s)"

subsection \<open>Statements on the fact tables\<close>

text \<open>
  Each statement checks the constraints of \<^verbatim>\<open>schema.sql\<close> (the foreign key to
  \<^verbatim>\<open>models\<close>, \<^verbatim>\<open>UNIQUE(model_id, user_id)\<close> on likes), changes the table and
  runs the row-level AFTER trigger once for every row inserted or deleted. A rejected
  statement returns the error and no store: nothing was changed. The acting user is
  an existing profile (the handlers run behind the authentication middleware), so
  the foreign key to \<^verbatim>\<open>profiles\<close> is not checked.
\<close>

definition insert_like :: "env \<Rightarrow> ident \<Rightarrow> ident \<Rightarrow> store \<Rightarrow> db_error + store" where
  "insert_like e mid uid s =
     (if fact_write_fails e then Inl statement_failed
      else if model_by_id s mid = None then Inl foreign_key_violation
      else if find (\<lambda>l. l_model_id l = mid \<and> l_user_id l = uid) (likes s) \<noteq> None
        then Inl unique_violation
      else Inr (update_model_counts INSERT Likes mid
        (s\<lparr>likes := likes s @
           [\<lparr>l_id = fresh_id (map l_id (likes s)), l_model_id = mid, l_user_id = uid\<rparr>]\<rparr>)))"

text \<open>
  \<^verbatim>\<open>prisma.like.delete({ where: { id } })\<close>: throws when no row has this key.
\<close>

definition delete_like :: "env \<Rightarrow> ident \<Rightarrow> store \<Rightarrow> db_error + store" where
  "delete_like e lid s =
     (if fact_write_fails e then Inl statement_failed
      else if filter (\<lambda>l. l_id l = lid) (likes s) = [] then Inl record_not_found
      else Inr (fold (\<lambda>l. update_model_counts DELETE Likes (l_model_id l))
                  (filter (\<lambda>l. l_id l = lid) (likes s))
                  (s\<lparr>likes := filter (\<lambda>l. l_id l \<noteq> lid) (likes s)\<rparr>)))"

definition insert_comment :: "env \<Rightarrow> string \<Rightarrow> ident \<Rightarrow> ident \<Rightarrow> store \<Rightarrow> db_error + store" where
  "insert_comment e content mid uid s =
     (if fact_write_fails e then Inl statement_failed
      else if model_by_id s mid = None then Inl foreign_key_violation
      else Inr (update_model_counts INSERT Comments mid
        (s\<lparr>comments := comments s @
           [\<lparr>c_id = fresh_id (map c_id (comments s)), c_content = content,
             c_model_id = mid, c_user_id = uid\<rparr>]\<rparr>)))"

definition insert_download ::
  "env \<Rightarrow> ident \<Rightarrow> ident option \<Rightarrow> string option \<Rightarrow> string option \<Rightarrow> store \<Rightarrow> db_error + store" where
  "insert_download e mid uid ip ua s =
     (if fact_write_fails e then Inl statement_failed
      else if model_by_id s mid = None then Inl foreign_key_violation
      else Inr (update_model_counts INSERT Downloads mid
        (s\<lparr>downloads := downloads s @
           [\<lparr>d_id = fresh_id (map d_id (downloads s)), d_model_id = mid, d_user_id = uid,
             d_ip_address = ip, d_user_agent = ua\<rparr>]\<rparr>)))"

text \<open>
  \<^verbatim>\<open>DELETE FROM models WHERE id = mid\<close>: every fact table references
  \<^verbatim>\<open>models(id) ON DELETE CASCADE\<close>, so the rows of the model go with it. (The
  DELETE triggers of the cascaded like and comment rows update a row that is being
  deleted.)
\<close>

definition delete_model_cascade :: "ident \<Rightarrow> store \<Rightarrow> store" where
  "delete_model_cascade mid s =
     s\<lparr>models := filter (\<lambda>m. m_id m \<noteq> mid) (models s),
       comments := filter (\<lambda>c. c_model_id c \<noteq> mid) (comments s),
       likes := filter (\<lambda>l. l_model_id l \<noteq> mid) (likes s),
       model_views := filter (\<lambda>v. v_model_id v \<noteq> mid) (model_views s),
       downloads := filter (\<lambda>d. d_model_id d \<noteq> mid) (downloads s)\<rparr>"

section \<open>The request handlers\<close>

text \<open>
  A handler takes the environment, what it reads of the request, and the store; it
  returns the store it leaves and the response (status code and body). The
  middleware in front of a handler (\<^verbatim>\<open>authenticateToken\<close>, \<^verbatim>\<open>requireRole\<close>,
  the validators) is not part of this repository's sources: the handler bodies are
  modelled, \<^verbatim>\<open>req.user.id\<close> is an argument, the result of \<^verbatim>\<open>parseInt(id)\<close>
  is an argument (\<open>None\<close> for NaN) and so is whether \<^verbatim>\<open>validationResult(req)\<close>
  is empty.
\<close>

datatype body =
  Error string
| Message string
| Liked string bool
| Model_detail model_row int int int int
| Comment_added comment_row
| File "string option"

type_synonym response = "nat \<times> body"

text \<open>JavaScript's \<^verbatim>\<open>a || b\<close> on nullable strings and on a number with default 0.\<close>

definition falsy :: "string option \<Rightarrow> bool" where
  "falsy a = (a = None \<or> a = Some [])"

definition js_or :: "string option \<Rightarrow> string option \<Rightarrow> string option" where
  "js_or a b = (if falsy a then b else a)"

definition or_zero :: "int \<Rightarrow> int" where
  "or_zero x = (if x = 0 then 0 else x)"

subsection \<open>\<^verbatim>\<open>routes/models.js\<close>\<close>

text \<open>
  \<^verbatim>\<open>GET /:id\<close>. The response is built from the row fetched before the
  increment; \<^verbatim>\<open>comment_count\<close> is the relation count \<^verbatim>\<open>_count.comments\<close>.
\<close>

definition get_model_by_id :: "env \<Rightarrow> ident \<Rightarrow> store \<Rightarrow> store \<times> response" where
  "get_model_by_id e mid s =
     (if db_read_fails e then (s, (500, Error ''Internal server error''))
      else case model_by_id s mid of
        None \<Rightarrow> (s, (404, Error ''Model not found''))
      | Some model \<Rightarrow>
          if models_write_fails e then (s, (500, Error ''Internal server error''))
          else (update_models (\<lambda>m. m\<lparr>view_count := view_count m + 1\<rparr>) mid s,
                (200, Model_detail model (view_count model) (download_count model)
                   (like_count model)
                   (int (length (filter (\<lambda>c. c_model_id c = mid) (comments s)))))))"

text \<open>\<^verbatim>\<open>POST /:id/like\<close>.\<close>

definition like_model :: "env \<Rightarrow> ident option \<Rightarrow> ident \<Rightarrow> store \<Rightarrow> store \<times> response" where
  "like_model e id_param uid s =
     (case id_param of
        None \<Rightarrow> (s, (400, Error ''Invalid model ID''))
      | Some modelId \<Rightarrow>
          if db_read_fails e then (s, (500, Error ''Internal server error''))
          else
            (case find (\<lambda>m. m_id m = modelId \<and> m_is_public m) (models s) of
               None \<Rightarrow> (s, (404, Error ''Model not found''))
             | Some model \<Rightarrow>
                 (case find (\<lambda>l. l_model_id l = modelId \<and> l_user_id l = uid) (likes s) of
                    Some existingLike \<Rightarrow>
                      (case delete_like e (l_id existingLike) s of
                         Inl err \<Rightarrow> (s, (500, Error ''Internal server error''))
                       | Inr s' \<Rightarrow> (s', (200, Liked ''Model unliked'' False)))
                  | None \<Rightarrow>
                      (case insert_like e modelId uid s of
                         Inl err \<Rightarrow> (s, (500, Error ''Internal server error''))
                       | Inr s' \<Rightarrow> (s', (200, Liked ''Model liked'' True))))))"

text \<open>\<^verbatim>\<open>POST /:id/comments\<close>; \<open>content\<close> is the body field after the sanitizer.\<close>

definition add_comment ::
  "env \<Rightarrow> bool \<Rightarrow> ident option \<Rightarrow> string \<Rightarrow> ident \<Rightarrow> store \<Rightarrow> store \<times> response" where
  "add_comment e valid id_param content uid s =
     (if \<not> valid then (s, (400, Error ''errors''))
      else case id_param of
        None \<Rightarrow> (s, (400, Error ''Invalid model ID''))
      | Some modelId \<Rightarrow>
          if db_read_fails e then (s, (500, Error ''Internal server error''))
          else
            (case find (\<lambda>m. m_id m = modelId \<and> m_is_public m) (models s) of
               None \<Rightarrow> (s, (404, Error ''Model not found''))
             | Some model \<Rightarrow>
                 (case insert_comment e content modelId uid s of
                    Inl err \<Rightarrow> (s, (500, Error ''Internal server error''))
                  | Inr s' \<Rightarrow> (s', (201, Comment_added (last (comments s')))))))"

subsection \<open>\<^verbatim>\<open>routes/downloads.js\<close>\<close>

record download_request =
  dr_modelId :: ident
  dr_userId :: ident
  dr_ip_address :: "string option"
  dr_user_agent :: "string option"
  dr_req_ip :: "string option"
  dr_header_user_agent :: "string option"

text \<open>
  \<^verbatim>\<open>POST /:modelId\<close>. A failed insert into \<^verbatim>\<open>downloads\<close> is logged and the
  handler goes on ("Don't fail the download if tracking fails").
\<close>

definition download_model :: "env \<Rightarrow> download_request \<Rightarrow> store \<Rightarrow> store \<times> response" where
  "download_model e r s =
     (if db_read_fails e then (s, (404, Error ''Model not found or not public''))
      else case find (\<lambda>m. m_id m = dr_modelId r \<and> m_is_public m) (models s) of
        None \<Rightarrow> (s, (404, Error ''Model not found or not public''))
      | Some model \<Rightarrow>
          if \<not> m_is_free model \<and> m_user_id model \<noteq> dr_userId r
          then (s, (403, Error ''This model requires payment''))
          else
            let s' = (case insert_download e (dr_modelId r) (Some (dr_userId r))
                             (js_or (dr_ip_address r) (dr_req_ip r))
                             (js_or (dr_user_agent r) (dr_header_user_agent r)) s of
                        Inl downloadError \<Rightarrow> s
                      | Inr s1 \<Rightarrow> s1)
            in if storage_fails e then (s', (500, Error ''Failed to download file''))
               else (s', (200, File (m_file_url model))))"

subsection \<open>\<^verbatim>\<open>pages/ModelDetail.jsx\<close>\<close>

text \<open>
  The page holds the model row it fetched earlier (\<^verbatim>\<open>fetchModelDetails\<close>) in its
  state (\<open>page_model\<close>, the component's \<^verbatim>\<open>model\<close>); \<^verbatim>\<open>handleDownload\<close> works from
  that copy: it inserts the download row (the insert trigger counts it) and then
  writes the counter itself, as the copy's value plus one. It shows a toast. (At the
  end it asks for a fresh copy; the copy a later call works from is an argument of
  that call.)
\<close>

record page =
  isAuthenticated :: bool
  user_id :: ident
  page_model :: model_row

datatype toast = Toast_error string | Toast_success string

definition handleDownload :: "env \<Rightarrow> page \<Rightarrow> store \<Rightarrow> store \<times> toast" where
  "handleDownload e p s =
     (if \<not> isAuthenticated p then (s, Toast_error ''Please log in to download models'')
      else if falsy (m_file_url (page_model p))
        then (s, Toast_error ''No file available for download'')
      else if storage_fails e then (s, Toast_error ''Failed to download model'')
      else
        let s1 = (case insert_download e (m_id (page_model p)) (Some (user_id p)) None None s of
                    Inl downloadError \<Rightarrow> s
                  | Inr s' \<Rightarrow> s');
            s2 = (if models_write_fails e then s1
                  else update_models
                         (\<lambda>m. m\<lparr>download_count := or_zero (download_count (page_model p)) + 1\<rparr>)
                         (m_id (page_model p)) s1)
        in (s2, Toast_success ''Download started!''))"

subsection \<open>The upload routes and \<^verbatim>\<open>routes/dashboard.js\<close>\<close>

text \<open>\<^verbatim>\<open>POST /\<close>: the new row has its counters at zero.\<close>

definition upload_model ::
  "env \<Rightarrow> bool \<Rightarrow> bool \<Rightarrow> string \<Rightarrow> bool \<Rightarrow> ident \<Rightarrow> store \<Rightarrow> store \<times> response" where
  "upload_model e valid has_file fileUrl isPublic uid s =
     (if \<not> valid then (s, (400, Error ''errors''))
      else if \<not> has_file then (s, (400, Error ''No model file provided''))
      else if models_write_fails e then (s, (500, Error ''Internal server error''))
      else (s\<lparr>models := models s @
              [\<lparr>m_id = fresh_id (map m_id (models s)), m_user_id = uid,
                m_file_url = Some fileUrl, m_is_public = isPublic, m_is_free = True,
                download_count = 0, view_count = 0, like_count = 0, comment_count = 0\<rparr>]\<rparr>,
            (201, Message ''Model uploaded successfully'')))"

text \<open>\<^verbatim>\<open>PATCH /uploads/:id/status\<close>.\<close>

definition update_model_status ::
  "env \<Rightarrow> ident \<Rightarrow> bool \<Rightarrow> ident \<Rightarrow> store \<Rightarrow> store \<times> response" where
  "update_model_status e mid isPublic uid s =
     (if db_read_fails e then (s, (500, Error ''Internal Server Error''))
      else case find (\<lambda>m. m_id m = mid \<and> m_user_id m = uid) (models s) of
        None \<Rightarrow> (s, (404, Error ''Not Found''))
      | Some model \<Rightarrow>
          if models_write_fails e then (s, (500, Error ''Internal Server Error''))
          else (update_models (\<lambda>m. m\<lparr>m_is_public := isPublic\<rparr>) mid s,
                (200, Message (if isPublic then ''Model published successfully''
                               else ''Model made private successfully''))))"

text \<open>\<^verbatim>\<open>DELETE /:id\<close>: "Delete model and related data".\<close>

definition delete_model :: "env \<Rightarrow> ident option \<Rightarrow> ident \<Rightarrow> store \<Rightarrow> store \<times> response" where
  "delete_model e id_param uid s =
     (case id_param of
        None \<Rightarrow> (s, (400, Error ''Invalid model ID''))
      | Some modelId \<Rightarrow>
          if db_read_fails e then (s, (500, Error ''Internal server error''))
          else
            (case find (\<lambda>m. m_id m = modelId \<and> m_user_id m = uid) (models s) of
               None \<Rightarrow> (s, (404, Error ''Model not found''))
             | Some model \<Rightarrow>
                 if models_write_fails e then (s, (500, Error ''Internal server error''))
                 else (delete_model_cascade modelId s,
                       (200, Message ''Model deleted successfully''))))"

section \<open>Executions\<close>

text \<open>
  The operations of the program that write to \<^verbatim>\<open>models\<close> or to a fact table.
  (The remaining routes only read these tables, or write columns of \<^verbatim>\<open>models\<close>
  that are not modelled: thumbnail, previews, metadata.) An execution is a list of
  operations, each with the environment it meets.
\<close>

datatype op =
  Get_model_by_id ident
| Like_model "ident option" ident
| Add_comment bool "ident option" string ident
| Download_model download_request
| HandleDownload page
| Upload_model bool bool string bool ident
| Update_model_status ident bool ident
| Delete_model "ident option" ident

fun step :: "env \<Rightarrow> op \<Rightarrow> store \<Rightarrow> store" where
  "step e (Get_model_by_id mid) s = fst (get_model_by_id e mid s)"
| "step e (Like_model id_param uid) s = fst (like_model e id_param uid s)"
| "step e (Add_comment valid id_param content uid) s =
     fst (add_comment e valid id_param content uid s)"
| "step e (Download_model r) s = fst (download_model e r s)"
| "step e (HandleDownload p) s = fst (handleDownload e p s)"
| "step e (Upload_model valid has_file fileUrl isPublic uid) s =
     fst (upload_model e valid has_file fileUrl isPublic uid s)"
| "step e (Update_model_status mid isPublic uid) s =
     fst (update_model_status e mid isPublic uid s)"
| "step e (Delete_model id_param uid) s = fst (delete_model e id_param uid s)"

fun exec :: "(env \<times> op) list \<Rightarrow> store \<Rightarrow> store" where
  "exec [] s = s"
| "exec (eo # ops) s = exec ops (step (fst eo) (snd eo) s)"

text \<open>
  An operation deletes the entity \<open>E\<close> when it is \<^verbatim>\<open>DELETE /:id\<close> for \<open>E\<close> and
  is answered 200 (a delete that is answered 400, 404 or 500 has deleted nothing).
  An execution keeps \<open>E\<close> when none of its operations, run in the store it meets,
  deletes \<open>E\<close>.
\<close>

fun deletes_entity :: "env \<Rightarrow> op \<Rightarrow> store \<Rightarrow> ident \<Rightarrow> bool" where
  "deletes_entity e (Delete_model id_param uid) s E =
     (id_param = Some E \<and> fst (snd (delete_model e id_param uid s)) = 200)"
| "deletes_entity e op s E = False"

fun entity_kept :: "ident \<Rightarrow> (env \<times> op) list \<Rightarrow> store \<Rightarrow> bool" where
  "entity_kept E [] s = True"
| "entity_kept E (eo # ops) s =
     (\<not> deletes_entity (fst eo) (snd eo) s E \<and>
      entity_kept E ops (step (fst eo) (snd eo) s))"

text \<open>\<^verbatim>\<open>UNIQUE(model_id, user_id)\<close> on \<^verbatim>\<open>public.likes\<close>, as a property of a store.\<close>

definition unique_likes :: "store \<Rightarrow> bool" where
  "unique_likes s = distinct (map (\<lambda>l. (l_model_id l, l_user_id l)) (likes s))"

subsection \<open>Concurrent like requests\<close>

text \<open>
  The handler of \<^verbatim>\<open>POST /:id/like\<close> awaits three statements: the lookup of the
  model, the lookup of the like, and the delete or create. Between two awaits other
  requests run. \<open>like_pc\<close> is where a request stands: before the first statement,
  after the model was found, after the like was looked up (with what was found),
  or answered. \<open>like_model_step\<close> runs the next statement, which the store
  executes atomically, and the handler's code up to the following await.
\<close>

datatype like_pc =
  L_start
| L_model_found ident
| L_like_read ident "like_row option"
| L_done response

fun like_model_step ::
  "env \<Rightarrow> ident option \<Rightarrow> ident \<Rightarrow> like_pc \<Rightarrow> store \<Rightarrow> like_pc \<times> store" where
  "like_model_step e id_param uid L_start s =
     (case id_param of
        None \<Rightarrow> (L_done (400, Error ''Invalid model ID''), s)
      | Some modelId \<Rightarrow>
          if db_read_fails e then (L_done (500, Error ''Internal server error''), s)
          else
            (case find (\<lambda>m. m_id m = modelId \<and> m_is_public m) (models s) of
               None \<Rightarrow> (L_done (404, Error ''Model not found''), s)
             | Some model \<Rightarrow> (L_model_found modelId, s)))"
| "like_model_step e id_param uid (L_model_found modelId) s =
     (if db_read_fails e then (L_done (500, Error ''Internal server error''), s)
      else (L_like_read modelId
              (find (\<lambda>l. l_model_id l = modelId \<and> l_user_id l = uid) (likes s)), s))"
| "like_model_step e id_param uid (L_like_read modelId existing) s =
     (case existing of
        Some existingLike \<Rightarrow>
          (case delete_like e (l_id existingLike) s of
             Inl err \<Rightarrow> (L_done (500, Error ''Internal server error''), s)
           | Inr s' \<Rightarrow> (L_done (200, Liked ''Model unliked'' False), s'))
      | None \<Rightarrow>
          (case insert_like e modelId uid s of
             Inl err \<Rightarrow> (L_done (500, Error ''Internal server error''), s)
           | Inr s' \<Rightarrow> (L_done (200, Liked ''Model liked'' True), s')))"
| "like_model_step e id_param uid (L_done r) s = (L_done r, s)"

fun is_done :: "like_pc \<Rightarrow> bool" where
  "is_done (L_done r) = True"
| "is_done pc = False"

text \<open>
  A request in flight: the parsed id, the user, where it stands. A schedule names,
  step by step, the request that runs its next statement; a request that is answered
  (or an index that names no request) leaves everything as it is.
\<close>

type_synonym like_request = "ident option \<times> ident \<times> like_pc"

fun sched_step ::
  "env \<Rightarrow> nat \<Rightarrow> like_request list \<times> store \<Rightarrow> like_request list \<times> store" where
  "sched_step e i (ts, s) =
     (if i < length ts then
        (case ts ! i of (id_param, uid, pc) \<Rightarrow>
           (case like_model_step e id_param uid pc s of
              (pc', s') \<Rightarrow> (ts[i := (id_param, uid, pc')], s')))
      else (ts, s))"

fun run_schedule ::
  "env \<Rightarrow> nat list \<Rightarrow> like_request list \<times> store \<Rightarrow> like_request list \<times> store" where
  "run_schedule e [] sys = sys"
| "run_schedule e (i # sched) sys = run_schedule e sched (sched_step e i sys)"

text \<open>
  For the proof about concurrent likes: how far a request has come (its number of
  statements so far, at most three), whether it is answered, and the invariant of a
  run in which requests of distinct users, none of whom has liked \<open>E\<close> before, like
  \<open>E\<close>: a request that is not yet answered has found no like of its user, an
  answered one has answered "liked", and the counter and the number of like rows of
  \<open>E\<close> have both grown by the number of answered requests.
\<close>

fun pc_rank :: "like_pc \<Rightarrow> nat" where
  "pc_rank L_start = 0"
| "pc_rank (L_model_found modelId) = 1"
| "pc_rank (L_like_read modelId existing) = 2"
| "pc_rank (L_done r) = 3"

definition answered :: "like_request \<Rightarrow> bool" where
  "answered t = is_done (snd (snd t))"

fun like_req_inv :: "ident \<Rightarrow> store \<Rightarrow> like_request \<Rightarrow> bool" where
  "like_req_inv E s (id_param, uid, pc) =
     (id_param = Some E \<and>
      (case pc of
         L_start \<Rightarrow> find (\<lambda>l. l_model_id l = E \<and> l_user_id l = uid) (likes s) = None
       | L_model_found modelId \<Rightarrow>
           modelId = E \<and> find (\<lambda>l. l_model_id l = E \<and> l_user_id l = uid) (likes s) = None
       | L_like_read modelId existing \<Rightarrow>
           modelId = E \<and> existing = None \<and>
           find (\<lambda>l. l_model_id l = E \<and> l_user_id l = uid) (likes s) = None
       | L_done r \<Rightarrow> r = (200, Liked ''Model liked'' True)))"

definition likes_inv ::
  "ident \<Rightarrow> ident list \<Rightarrow> int \<Rightarrow> nat \<Rightarrow> like_request list \<times> store \<Rightarrow> bool" where
  "likes_inv E us c0 r0 sys =
     (length (fst sys) = length us \<and>
      (\<forall>j < length us. fst (snd (fst sys ! j)) = us ! j \<and> like_req_inv E (snd sys) (fst sys ! j)) \<and>
      (\<exists>m. model_by_id (snd sys) E = Some m \<and> m_is_public m \<and>
           like_count m = c0 + int (length (filter answered (fst sys)))) \<and>
      length (filter (\<lambda>l. l_model_id l = E) (likes (snd sys))) =
        r0 + length (filter answered (fst sys)))"

section \<open>Sample data\<close>

definition ok_env :: env where
  "ok_env = \<lparr>db_read_fails = False, fact_write_fails = False,
             models_write_fails = False, storage_fails = False\<rparr>"

definition castle :: model_row where
  "castle = \<lparr>m_id = 1, m_user_id = 7, m_file_url = Some ''uploads/castle.glb'',
             m_is_public = True, m_is_free = True,
             download_count = 0, view_count = 0, like_count = 0, comment_count = 0\<rparr>"

definition castle_store :: store where
  "castle_store = \<lparr>models = [castle], comments = [], likes = [], model_views = [],
                   downloads = []\<rparr>"

definition other_download :: download_request where
  "other_download = \<lparr>dr_modelId = 1, dr_userId = 43, dr_ip_address = None,
                     dr_user_agent = None, dr_req_ip = Some ''10.0.0.1'',
                     dr_header_user_agent = Some ''curl''\<rparr>"

definition downloaded_store :: store where
  "downloaded_store =
     \<lparr>models = [castle\<lparr>download_count := 1\<rparr>], comments = [], likes = [], model_views = [],
      downloads = [\<lparr>d_id = 1, d_model_id = 1, d_user_id = Some 43,
                    d_ip_address = Some ''10.0.0.1'', d_user_agent = Some ''curl''\<rparr>]\<rparr>"

text \<open>A page that fetched the castle before anyone had downloaded it.\<close>

definition stale_page :: page where
  "stale_page = \<lparr>isAuthenticated = True, user_id = 42, page_model = castle\<rparr>"

text \<open>A like row of user 42 on the castle; a store that holds it while the counter is 0,
  and the store in which the counter has counted it.\<close>

definition like_42 :: like_row where
  "like_42 = \<lparr>l_id = 1, l_model_id = 1, l_user_id = 42\<rparr>"

definition drifted_store :: store where
  "drifted_store = castle_store\<lparr>likes := [like_42]\<rparr>"

definition liked_store :: store where
  "liked_store = \<lparr>models = [castle\<lparr>like_count := 1\<rparr>], comments = [], likes = [like_42],
                  model_views = [], downloads = []\<rparr>"

text \<open>Two paid models of user 7, one private and one public, and a request of user 43
  for each.\<close>

definition villa :: model_row where
  "villa = \<lparr>m_id = 2, m_user_id = 7, m_file_url = Some ''uploads/villa.glb'',
            m_is_public = False, m_is_free = False,
            download_count = 0, view_count = 0, like_count = 0, comment_count = 0\<rparr>"

definition statue :: model_row where
  "statue = \<lparr>m_id = 3, m_user_id = 7, m_file_url = Some ''uploads/statue.glb'',
             m_is_public = True, m_is_free = False,
             download_count = 0, view_count = 0, like_count = 0, comment_count = 0\<rparr>"

definition shop_store :: store where
  "shop_store = \<lparr>models = [castle, villa, statue], comments = [], likes = [],
                 model_views = [], downloads = []\<rparr>"

definition villa_request :: download_request where
  "villa_request = \<lparr>dr_modelId = 2, dr_userId = 43, dr_ip_address = None,
                    dr_user_agent = None, dr_req_ip = Some ''10.0.0.1'',
                    dr_header_user_agent = Some ''curl''\<rparr>"

definition statue_request :: download_request where
  "statue_request = \<lparr>dr_modelId = 3, dr_userId = 43, dr_ip_address = None,
                     dr_user_agent = None, dr_req_ip = Some ''10.0.0.1'',
                     dr_header_user_agent = Some ''curl''\<rparr>"



section \<open>Basic facts about the store\<close>

lemma fresh_id_greater: "x \<in> set xs \<Longrightarrow> x < fresh_id xs"
  by (induction xs) auto

lemma find_conj_first:
  "find P xs = Some m \<Longrightarrow> Q m \<Longrightarrow> find (\<lambda>x. P x \<and> Q x) xs = Some m"
  by (induction xs) (auto split: if_splits)

lemma find_conj_Some_first:
  "find (\<lambda>x. P x \<and> Q x) xs = Some m \<Longrightarrow> find P xs \<noteq> None"
  by (induction xs) (auto split: if_splits)

lemma find_append_none:
  "find P xs = None \<Longrightarrow> find P (xs @ ys) = find P ys"
  by (induction xs) (auto split: if_splits)

lemma find_pk:
  "distinct (map m_id ms) \<Longrightarrow> find (\<lambda>m. m_id m = x) ms = Some m \<Longrightarrow>
   find (\<lambda>m. m_id m = x \<and> Q m) ms = (if Q m then Some m else None)"
proof (induction ms)
  case Nil
  then show ?case by simp
next
  case (Cons a ms)
  show ?case
  proof (cases "m_id a = x")
    case True
    with Cons.prems have am: "a = m" and "\<forall>b \<in> set ms. m_id b \<noteq> x"
      by (force simp: image_iff)+
    then have "find (\<lambda>m. m_id m = x \<and> Q m) ms = None" by (auto simp: find_None_iff)
    with True am show ?thesis by simp
  next
    case False
    with Cons show ?thesis by simp
  qed
qed

lemma find_map_update:
  assumes "\<And>m. m_id (f m) = m_id m"
  shows "find (\<lambda>m. m_id m = x) (map (\<lambda>m. if m_id m = mid then f m else m) ms) =
         (if x = mid then map_option f (find (\<lambda>m. m_id m = x) ms)
          else find (\<lambda>m. m_id m = x) ms)"
  using assms by (induction ms) auto

lemma model_by_id_update_models:
  assumes "\<And>m. m_id (f m) = m_id m"
  shows "model_by_id (update_models f mid s) x =
         (if x = mid then map_option f (model_by_id s x) else model_by_id s x)"
  unfolding model_by_id_def update_models_def using find_map_update [OF assms] by simp

lemma update_models_tables [simp]:
  "comments (update_models f mid s) = comments s"
  "likes (update_models f mid s) = likes s"
  "model_views (update_models f mid s) = model_views s"
  "downloads (update_models f mid s) = downloads s"
  by (simp_all add: update_models_def)

lemma update_model_counts_tables [simp]:
  "comments (update_model_counts tg t mid s) = comments s"
  "likes (update_model_counts tg t mid s) = likes s"
  "model_views (update_model_counts tg t mid s) = model_views s"
  "downloads (update_model_counts tg t mid s) = downloads s"
  by (simp_all add: update_model_counts_def)

lemma fold_update_model_counts_likes [simp]:
  "likes (fold (\<lambda>l. update_model_counts tg t (g l)) xs s) = likes s"
  by (induction xs arbitrary: s) simp_all

lemma fold_update_model_counts_tables [simp]:
  "comments (fold (\<lambda>l. update_model_counts tg t (g l)) xs s) = comments s"
  "model_views (fold (\<lambda>l. update_model_counts tg t (g l)) xs s) = model_views s"
  "downloads (fold (\<lambda>l. update_model_counts tg t (g l)) xs s) = downloads s"
  by (induction xs arbitrary: s) simp_all

lemma model_by_id_update_model_counts:
  "model_by_id (update_model_counts tg t mid s) x =
     (if x = mid then
        map_option (\<lambda>m.
          if tg = INSERT then
            (if t = Likes then m\<lparr>like_count := like_count m + 1\<rparr>
             else if t = Comments then m\<lparr>comment_count := comment_count m + 1\<rparr>
             else if t = Downloads then m\<lparr>download_count := download_count m + 1\<rparr>
             else m\<lparr>view_count := view_count m + 1\<rparr>)
          else if tg = DELETE then
            (if t = Likes then m\<lparr>like_count := like_count m - 1\<rparr>
             else if t = Comments then m\<lparr>comment_count := comment_count m - 1\<rparr>
             else m)
          else m) (model_by_id s x)
      else model_by_id s x)"
  by (cases t; cases tg) (simp_all add: update_model_counts_def model_by_id_update_models option.map_ident)

lemma model_by_id_likes_update [simp]:
  "model_by_id (s\<lparr>likes := ls\<rparr>) x = model_by_id s x"
  by (simp add: model_by_id_def)

lemma filter_id_fresh:
  "filter (\<lambda>l. l_id l = fresh_id (map l_id ls)) ls = []"
proof -
  have "\<forall>l \<in> set ls. l_id l \<noteq> fresh_id (map l_id ls)"
    using fresh_id_greater [of _ "map l_id ls"] by fastforce
  then show ?thesis by (simp add: filter_empty_conv)
qed

lemma filter_id_not_fresh:
  "filter (\<lambda>l. l_id l \<noteq> fresh_id (map l_id ls)) ls = ls"
proof -
  have "\<forall>l \<in> set ls. l_id l \<noteq> fresh_id (map l_id ls)"
    using fresh_id_greater [of _ "map l_id ls"] by fastforce
  then show ?thesis by (simp add: filter_id_conv)
qed

lemma distinct_map_filter_le1:
  "distinct (map f xs) \<Longrightarrow> length (filter (\<lambda>x. f x = v) xs) \<le> 1"
proof (induction xs)
  case Nil
  then show ?case by simp
next
  case (Cons x xs)
  show ?case
  proof (cases "f x = v")
    case True
    with Cons.prems have "\<forall>y \<in> set xs. f y \<noteq> v" by (force simp: image_iff)
    then have "filter (\<lambda>x. f x = v) xs = []" by (simp add: filter_empty_conv)
    with True show ?thesis by simp
  next
    case False
    with Cons show ?thesis by simp
  qed
qed

lemma filter_update_length:
  "i < length xs \<Longrightarrow>
   length (filter P (xs[i := x])) + (if P (xs ! i) then 1 else 0) =
   length (filter P xs) + (if P x then 1 else 0)"
proof (induction xs arbitrary: i)
  case Nil
  then show ?case by simp
next
  case (Cons a xs)
  then show ?case by (cases i) auto
qed

lemma filter_filter_other:
  "mid \<noteq> E \<Longrightarrow> filter (\<lambda>d. f d = E) (filter (\<lambda>d. f d \<noteq> mid) xs) = filter (\<lambda>d. f d = E) xs"
  by (induction xs) auto

lemma delete_model_cascade_other:
  assumes "mid \<noteq> E"
  shows "filter (\<lambda>d. d_model_id d = E) (downloads (delete_model_cascade mid s)) =
         filter (\<lambda>d. d_model_id d = E) (downloads s)"
    and "filter (\<lambda>v. v_model_id v = E) (model_views (delete_model_cascade mid s)) =
         filter (\<lambda>v. v_model_id v = E) (model_views s)"
  using assms filter_filter_other [of mid E d_model_id "downloads s"]
    filter_filter_other [of mid E v_model_id "model_views s"]
  by (simp_all add: delete_model_cascade_def del: filter_filter)

lemma model_by_id_tables_update [simp]:
  "model_by_id (s\<lparr>comments := cs\<rparr>) x = model_by_id s x"
  "model_by_id (s\<lparr>model_views := vs\<rparr>) x = model_by_id s x"
  "model_by_id (s\<lparr>downloads := ds\<rparr>) x = model_by_id s x"
  by (simp_all add: model_by_id_def)

subsection \<open>What a statement and a handler do to the fact tables\<close>

lemma insert_download_cases:
  "insert_download e mid uid ip ua s = Inr s' \<Longrightarrow>
     likes s' = likes s \<and> model_views s' = model_views s \<and> comments s' = comments s \<and>
     (\<exists>row. downloads s' = downloads s @ [row] \<and> d_model_id row = mid)"
  by (auto simp: insert_download_def split: if_splits)

lemma insert_comment_cases:
  "insert_comment e c mid uid s = Inr s' \<Longrightarrow>
     likes s' = likes s \<and> model_views s' = model_views s \<and> downloads s' = downloads s \<and>
     (\<exists>row. comments s' = comments s @ [row] \<and> c_model_id row = mid)"
  by (auto simp: insert_comment_def split: if_splits)

lemma insert_like_cases:
  "insert_like e mid uid s = Inr s' \<Longrightarrow>
     downloads s' = downloads s \<and> model_views s' = model_views s \<and> comments s' = comments s \<and>
     find (\<lambda>l. l_model_id l = mid \<and> l_user_id l = uid) (likes s) = None \<and>
     (\<exists>row. likes s' = likes s @ [row] \<and> l_model_id row = mid \<and> l_user_id row = uid)"
  by (auto simp: insert_like_def split: if_splits)

lemma delete_like_cases:
  "delete_like e lid s = Inr s' \<Longrightarrow>
     downloads s' = downloads s \<and> model_views s' = model_views s \<and> comments s' = comments s \<and>
     likes s' = filter (\<lambda>l. l_id l \<noteq> lid) (likes s)"
  by (auto simp: delete_like_def split: if_splits)

lemma get_model_by_id_tables [simp]:
  "likes (fst (get_model_by_id e mid s)) = likes s"
  "downloads (fst (get_model_by_id e mid s)) = downloads s"
  "model_views (fst (get_model_by_id e mid s)) = model_views s"
  "comments (fst (get_model_by_id e mid s)) = comments s"
  by (simp_all add: get_model_by_id_def split: option.splits)

lemma like_model_tables [simp]:
  "downloads (fst (like_model e idp uid s)) = downloads s"
  "model_views (fst (like_model e idp uid s)) = model_views s"
  "comments (fst (like_model e idp uid s)) = comments s"
  by (auto simp: like_model_def split: option.splits sum.splits
        dest: insert_like_cases delete_like_cases)

lemma like_model_likes:
  "likes (fst (like_model e idp uid s)) = likes s \<or>
   (\<exists>row. likes (fst (like_model e idp uid s)) = likes s @ [row] \<and>
      find (\<lambda>l. l_model_id l = l_model_id row \<and> l_user_id l = l_user_id row) (likes s) = None) \<or>
   (\<exists>lid. likes (fst (like_model e idp uid s)) = filter (\<lambda>l. l_id l \<noteq> lid) (likes s))"
  by (auto simp: like_model_def split: option.splits sum.splits
        dest!: insert_like_cases delete_like_cases)

lemma add_comment_tables [simp]:
  "likes (fst (add_comment e v idp c uid s)) = likes s"
  "downloads (fst (add_comment e v idp c uid s)) = downloads s"
  "model_views (fst (add_comment e v idp c uid s)) = model_views s"
  by (auto simp: add_comment_def split: option.splits sum.splits dest: insert_comment_cases)

lemma download_model_tables [simp]:
  "likes (fst (download_model e r s)) = likes s"
  "comments (fst (download_model e r s)) = comments s"
  "model_views (fst (download_model e r s)) = model_views s"
  by (auto simp: download_model_def Let_def split: option.splits sum.splits
        dest: insert_download_cases)

lemma download_model_downloads:
  "downloads (fst (download_model e r s)) = downloads s \<or>
   (\<exists>row. downloads (fst (download_model e r s)) = downloads s @ [row])"
  by (auto simp: download_model_def Let_def split: option.splits sum.splits
        dest: insert_download_cases)

lemma handleDownload_tables [simp]:
  "likes (fst (handleDownload e p s)) = likes s"
  "comments (fst (handleDownload e p s)) = comments s"
  "model_views (fst (handleDownload e p s)) = model_views s"
  by (auto simp: handleDownload_def Let_def split: option.splits sum.splits
        dest: insert_download_cases)

lemma handleDownload_downloads:
  "downloads (fst (handleDownload e p s)) = downloads s \<or>
   (\<exists>row. downloads (fst (handleDownload e p s)) = downloads s @ [row])"
  by (auto simp: handleDownload_def Let_def split: option.splits sum.splits
        dest: insert_download_cases)

lemma upload_model_tables [simp]:
  "likes (fst (upload_model e v h f p uid s)) = likes s"
  "comments (fst (upload_model e v h f p uid s)) = comments s"
  "model_views (fst (upload_model e v h f p uid s)) = model_views s"
  "downloads (fst (upload_model e v h f p uid s)) = downloads s"
  by (simp_all add: upload_model_def)

lemma update_model_status_tables [simp]:
  "likes (fst (update_model_status e mid p uid s)) = likes s"
  "comments (fst (update_model_status e mid p uid s)) = comments s"
  "model_views (fst (update_model_status e mid p uid s)) = model_views s"
  "downloads (fst (update_model_status e mid p uid s)) = downloads s"
  by (simp_all add: update_model_status_def split: option.splits)

lemma delete_model_tables:
  "fst (delete_model e idp uid s) = s \<or>
   (\<exists>mid. idp = Some mid \<and> fst (snd (delete_model e idp uid s)) = 200 \<and>
      fst (delete_model e idp uid s) = delete_model_cascade mid s)"
  by (simp add: delete_model_def split: option.splits)

lemma step_likes:
  "likes (step e op s) = likes s \<or>
   (\<exists>row. likes (step e op s) = likes s @ [row] \<and>
      find (\<lambda>l. l_model_id l = l_model_id row \<and> l_user_id l = l_user_id row) (likes s) = None) \<or>
   (\<exists>P. likes (step e op s) = filter P (likes s))"
proof (cases op)
  case (Like_model idp uid)
  then show ?thesis using like_model_likes [of e idp uid s] by auto
next
  case (Delete_model idp uid)
  then show ?thesis using delete_model_tables [of e idp uid s]
    by (auto simp: delete_model_cascade_def)
qed simp_all

lemma like_model_step_likes:
  "likes (snd (like_model_step e idp uid pc s)) = likes s \<or>
   (\<exists>row. likes (snd (like_model_step e idp uid pc s)) = likes s @ [row] \<and>
      find (\<lambda>l. l_model_id l = l_model_id row \<and> l_user_id l = l_user_id row) (likes s) = None) \<or>
   (\<exists>P. likes (snd (like_model_step e idp uid pc s)) = filter P (likes s))"
  by (cases pc) (auto split: option.splits sum.splits dest!: insert_like_cases delete_like_cases)

subsection \<open>The handler of a like, statement by statement\<close>

text \<open>Run without interruption, the three statements are the handler.\<close>

lemma like_model_steps_route:
  "(case like_model_step e idp u L_start s of (pc1, s1) \<Rightarrow>
      case like_model_step e idp u pc1 s1 of (pc2, s2) \<Rightarrow>
        case like_model_step e idp u pc2 s2 of (pc3, s3) \<Rightarrow> (s3, pc3)) =
   (case like_model e idp u s of (s', r) \<Rightarrow> (s', L_done r))"
  by (auto simp: like_model_def split: option.splits sum.splits)

lemma like_model_step_rank:
  "min 3 (pc_rank pc + 1) \<le> pc_rank (fst (like_model_step e idp u pc s))"
  by (cases pc) (auto split: option.splits sum.splits)

lemma pc_rank_done: "is_done pc \<longleftrightarrow> 3 \<le> pc_rank pc"
  by (cases pc) auto

lemma sched_step_length [simp]: "length (fst (sched_step e i sys)) = length (fst sys)"
  by (cases sys) (auto split: prod.splits)

lemma sched_step_rank:
  assumes "j < length (fst sys)"
  shows "min 3 (pc_rank (snd (snd (fst sys ! j))) + (if i = j then 1 else 0))
         \<le> pc_rank (snd (snd (fst (sched_step e i sys) ! j)))"
proof -
  obtain ts s where sys: "sys = (ts, s)" by (cases sys) auto
  show ?thesis
  proof (cases "i < length ts")
    case False
    with assms sys show ?thesis by auto
  next
    case True
    obtain idp u pc where t: "ts ! i = (idp, u, pc)" by (cases "ts ! i") auto
    obtain pc' s' where st: "like_model_step e idp u pc s = (pc', s')"
      by (cases "like_model_step e idp u pc s") auto
    have step: "sched_step e i sys = (ts[i := (idp, u, pc')], s')"
      using sys True t st by simp
    show ?thesis
    proof (cases "i = j")
      case True
      have "min 3 (pc_rank pc + 1) \<le> pc_rank pc'"
        using like_model_step_rank [of pc e idp u s] st by simp
      with True step t sys assms show ?thesis by simp
    next
      case False
      with step sys show ?thesis by simp
    qed
  qed
qed

lemma run_schedule_length [simp]: "length (fst (run_schedule e sched sys)) = length (fst sys)"
  by (induction sched arbitrary: sys) simp_all

lemma run_schedule_rank:
  assumes "j < length (fst sys)"
  shows "min 3 (pc_rank (snd (snd (fst sys ! j))) + count_list sched j)
         \<le> pc_rank (snd (snd (fst (run_schedule e sched sys) ! j)))"
  using assms
proof (induction sched arbitrary: sys)
  case Nil
  then show ?case by simp
next
  case (Cons i sched)
  have j': "j < length (fst (sched_step e i sys))" using Cons.prems by simp
  from Cons.IH [OF j'] sched_step_rank [OF Cons.prems, of i e]
  show ?case by (auto simp: min_def split: if_splits)
qed

subsection \<open>At most one like per model and user\<close>

lemma unique_likes_same_pair:
  assumes "unique_likes s" "x \<in> set (likes s)" "y \<in> set (likes s)"
    and "l_model_id x = l_model_id y" "l_user_id x = l_user_id y"
  shows "x = y"
proof -
  have "inj_on (\<lambda>l. (l_model_id l, l_user_id l)) (set (likes s))"
    using assms(1) by (simp add: unique_likes_def distinct_map)
  then show ?thesis using assms(2-5) by (auto dest: inj_onD)
qed

lemma unique_likes_cases:
  assumes u: "unique_likes s"
    and c: "likes s' = likes s \<or>
   (\<exists>row. likes s' = likes s @ [row] \<and>
      find (\<lambda>l. l_model_id l = l_model_id row \<and> l_user_id l = l_user_id row) (likes s) = None) \<or>
   (\<exists>P. likes s' = filter P (likes s))"
  shows "unique_likes s'"
proof -
  consider "likes s' = likes s"
    | row where "likes s' = likes s @ [row]"
        "find (\<lambda>l. l_model_id l = l_model_id row \<and> l_user_id l = l_user_id row) (likes s) = None"
    | P where "likes s' = filter P (likes s)"
    using c by blast
  then show ?thesis
  proof cases
    case 1
    with u show ?thesis by (simp add: unique_likes_def)
  next
    case 2
    from 2(2) have "(l_model_id row, l_user_id row) \<notin> (\<lambda>l. (l_model_id l, l_user_id l)) ` set (likes s)"
      by (auto simp: find_None_iff)
    with u 2(1) show ?thesis by (simp add: unique_likes_def)
  next
    case 3
    with u show ?thesis by (simp add: unique_likes_def distinct_map_filter)
  qed
qed

lemma unique_likes_step: "unique_likes s \<Longrightarrow> unique_likes (step e op s)"
  using unique_likes_cases [OF _ step_likes] by blast

lemma unique_likes_exec: "unique_likes s \<Longrightarrow> unique_likes (exec ops s)"
  by (induction ops arbitrary: s) (simp_all add: unique_likes_step)

lemma unique_likes_sched_step:
  "unique_likes (snd sys) \<Longrightarrow> unique_likes (snd (sched_step e i sys))"
proof (cases sys)
  case (Pair ts s)
  assume u: "unique_likes (snd sys)"
  show ?thesis
  proof (cases "i < length ts")
    case True
    obtain idp uid pc where t: "ts ! i = (idp, uid, pc)" by (cases "ts ! i") auto
    have "snd (sched_step e i sys) = snd (like_model_step e idp uid pc s)"
      using Pair True t by (simp split: prod.splits)
    then show ?thesis
      using unique_likes_cases [OF _ like_model_step_likes [of e idp uid pc s]] u Pair by simp
  next
    case False
    with Pair u show ?thesis by simp
  qed
qed

lemma unique_likes_run_schedule:
  "unique_likes (snd sys) \<Longrightarrow> unique_likes (snd (run_schedule e sched sys))"
  by (induction sched arbitrary: sys) (simp_all add: unique_likes_sched_step)

subsection \<open>The invariant of concurrent likes\<close>

lemma like_req_inv_other_insert:
  assumes "like_req_inv E s t" and "fst (snd t) \<noteq> l_user_id row"
    and "likes s' = likes s @ [row]"
  shows "like_req_inv E s' t"
proof -
  obtain idp u pc where t: "t = (idp, u, pc)" by (cases t) auto
  have "find (\<lambda>l. l_model_id l = E \<and> l_user_id l = u) (likes s') = None"
    if "find (\<lambda>l. l_model_id l = E \<and> l_user_id l = u) (likes s) = None"
    using that assms(2,3) t by (simp add: find_append_none)
  then show ?thesis using assms(1) t by (cases pc) auto
qed

lemma likes_inv_same_store:
  assumes inv: "likes_inv E us c0 r0 (ts, s)" and i: "i < length ts"
    and t: "ts ! i = (idp, u, pc)" and nd: "\<not> is_done pc" "\<not> is_done pc'"
    and new: "like_req_inv E s (idp, u, pc')"
  shows "likes_inv E us c0 r0 (ts[i := (idp, u, pc')], s)"
proof -
  have cnt: "length (filter answered (ts[i := (idp, u, pc')])) = length (filter answered ts)"
    using filter_update_length [OF i, of answered "(idp, u, pc')"] t nd
    by (simp add: answered_def)
  have len: "length ts = length us" using inv by (simp add: likes_inv_def)
  have "fst (snd ((ts[i := (idp, u, pc')]) ! j)) = us ! j \<and>
        like_req_inv E s ((ts[i := (idp, u, pc')]) ! j)" if "j < length us" for j
  proof (cases "j = i")
    case True
    have "us ! i = u" using inv i len t by (auto simp: likes_inv_def)
    with True i new show ?thesis by simp
  next
    case False
    with inv that show ?thesis by (simp add: likes_inv_def)
  qed
  then show ?thesis using inv cnt by (simp add: likes_inv_def)
qed

lemma likes_inv_insert:
  assumes inv: "likes_inv E us c0 r0 (ts, s)" and i: "i < length ts"
    and d: "distinct us"
    and t: "ts ! i = (Some E, u, pc)" and nd: "\<not> is_done pc"
    and s': "s' = update_model_counts INSERT Likes E (s\<lparr>likes := likes s @ [row]\<rparr>)"
    and row: "l_model_id row = E" "l_user_id row = u"
  shows "likes_inv E us c0 r0 (ts[i := (Some E, u, L_done (200, Liked ''Model liked'' True))], s')"
proof -
  let ?t' = "(Some E, u, L_done (200, Liked ''Model liked'' True))"
  have cnt: "length (filter answered (ts[i := ?t'])) = length (filter answered ts) + 1"
    using filter_update_length [OF i, of answered ?t'] t nd by (simp add: answered_def)
  have len: "length ts = length us" using inv by (simp add: likes_inv_def)
  have ui: "us ! i = u" using inv i len t by (auto simp: likes_inv_def)
  have l': "likes s' = likes s @ [row]" by (simp add: s')
  have "fst (snd ((ts[i := ?t']) ! j)) = us ! j \<and> like_req_inv E s' ((ts[i := ?t']) ! j)"
    if j: "j < length us" for j
  proof (cases "j = i")
    case True
    with i ui show ?thesis by simp
  next
    case False
    have uj: "fst (snd (ts ! j)) = us ! j" and rj: "like_req_inv E s (ts ! j)"
      using inv j by (simp_all add: likes_inv_def)
    have "us ! j \<noteq> us ! i"
      using d j i len False by (simp add: nth_eq_iff_index_eq)
    then have "fst (snd (ts ! j)) \<noteq> l_user_id row" using uj ui row by simp
    from like_req_inv_other_insert [OF rj this l'] uj False show ?thesis by simp
  qed
  moreover obtain m where m: "model_by_id s E = Some m" "m_is_public m"
      "like_count m = c0 + int (length (filter answered ts))"
    using inv by (auto simp: likes_inv_def)
  have "model_by_id s' E = Some (m\<lparr>like_count := like_count m + 1\<rparr>)"
    using m(1) by (simp add: s' model_by_id_update_model_counts)
  then have "\<exists>m'. model_by_id s' E = Some m' \<and> m_is_public m' \<and>
       like_count m' = c0 + int (length (filter answered (ts[i := ?t'])))"
    using m cnt by simp
  moreover have "length (filter (\<lambda>l. l_model_id l = E) (likes s')) =
        r0 + length (filter answered (ts[i := ?t']))"
    using inv cnt row by (simp add: l' likes_inv_def)
  ultimately show ?thesis using len by (simp add: likes_inv_def)
qed

lemma likes_inv_sched_step:
  assumes inv: "likes_inv E us c0 r0 sys" and d: "distinct us"
    and ok: "\<not> db_read_fails e" "\<not> fact_write_fails e"
  shows "likes_inv E us c0 r0 (sched_step e i sys)"
proof -
  obtain ts s where sys: "sys = (ts, s)" by (cases sys) auto
  show ?thesis
  proof (cases "i < length ts")
    case False
    with inv sys show ?thesis by simp
  next
    case True
    obtain idp u pc where t: "ts ! i = (idp, u, pc)" by (cases "ts ! i") auto
    have len: "length ts = length us" using inv sys by (simp add: likes_inv_def)
    have r: "like_req_inv E s (idp, u, pc)"
      using inv sys True len t by (auto simp: likes_inv_def)
    then have idp: "idp = Some E" by simp
    obtain m where m: "model_by_id s E = Some m" "m_is_public m"
      using inv sys by (auto simp: likes_inv_def)
    have pub: "find (\<lambda>m. m_id m = E \<and> m_is_public m) (models s) = Some m"
      using m by (simp add: model_by_id_def find_conj_first)
    show ?thesis
    proof (cases pc)
      case L_start
      have "sched_step e i sys = (ts[i := (idp, u, L_model_found E)], s)"
        using sys True t L_start idp ok pub by simp
      moreover have "likes_inv E us c0 r0 (ts[i := (idp, u, L_model_found E)], s)"
        using likes_inv_same_store [OF inv [unfolded sys] True t] r L_start by simp
      ultimately show ?thesis by simp
    next
      case (L_model_found mid)
      with r have mid: "mid = E"
        and nl: "find (\<lambda>l. l_model_id l = E \<and> l_user_id l = u) (likes s) = None" by simp_all
      have "sched_step e i sys = (ts[i := (idp, u, L_like_read E None)], s)"
        using sys True t L_model_found mid nl ok by simp
      moreover have "likes_inv E us c0 r0 (ts[i := (idp, u, L_like_read E None)], s)"
        using likes_inv_same_store [OF inv [unfolded sys] True t] r L_model_found by simp
      ultimately show ?thesis by simp
    next
      case (L_like_read mid ex)
      with r have mid: "mid = E" and ex: "ex = None"
        and nl: "find (\<lambda>l. l_model_id l = E \<and> l_user_id l = u) (likes s) = None" by simp_all
      define row where "row = \<lparr>l_id = fresh_id (map l_id (likes s)), l_model_id = E, l_user_id = u\<rparr>"
      define s' where "s' = update_model_counts INSERT Likes E (s\<lparr>likes := likes s @ [row]\<rparr>)"
      have ins: "insert_like e E u s = Inr s'"
        using m nl ok by (simp add: insert_like_def s'_def row_def)
      have "sched_step e i sys =
          (ts[i := (Some E, u, L_done (200, Liked ''Model liked'' True))], s')"
        using sys True t L_like_read mid ex idp ins by simp
      moreover have "likes_inv E us c0 r0
          (ts[i := (Some E, u, L_done (200, Liked ''Model liked'' True))], s')"
        using likes_inv_insert [OF inv [unfolded sys] True d t [unfolded idp] _ s'_def]
          L_like_read by (simp add: row_def)
      ultimately show ?thesis by simp
    next
      case (L_done resp)
      have "sched_step e i sys = (ts[i := ts ! i], s)"
        using sys True t L_done by simp
      then show ?thesis using inv sys by simp
    qed
  qed
qed

lemma likes_inv_run_schedule:
  assumes "likes_inv E us c0 r0 sys" and "distinct us"
    and "\<not> db_read_fails e" "\<not> fact_write_fails e"
  shows "likes_inv E us c0 r0 (run_schedule e sched sys)"
  using assms
  by (induction sched arbitrary: sys) (simp_all add: likes_inv_sched_step)

subsection \<open>Rows of a model that is not deleted\<close>

lemma step_downloads:
  assumes "\<not> deletes_entity e op s E"
  shows "prefix (filter (\<lambda>d. d_model_id d = E) (downloads s))
                (filter (\<lambda>d. d_model_id d = E) (downloads (step e op s)))"
proof (cases op)
  case (Download_model r)
  then show ?thesis using download_model_downloads [of e r s] by auto
next
  case (HandleDownload p)
  then show ?thesis using handleDownload_downloads [of e p s] by auto
next
  case (Delete_model idp uid)
  from delete_model_tables [of e idp uid s] show ?thesis
  proof
    assume "fst (delete_model e idp uid s) = s"
    with Delete_model show ?thesis by simp
  next
    assume "\<exists>mid. idp = Some mid \<and> fst (snd (delete_model e idp uid s)) = 200 \<and>
      fst (delete_model e idp uid s) = delete_model_cascade mid s"
    then obtain mid where mid: "idp = Some mid"
      and ok: "fst (snd (delete_model e idp uid s)) = 200"
      and st: "fst (delete_model e idp uid s) = delete_model_cascade mid s" by blast
    have "mid \<noteq> E" using assms Delete_model mid ok by auto
    with st Delete_model show ?thesis by (simp add: delete_model_cascade_other)
  qed
qed simp_all

lemma step_model_views:
  assumes "\<not> deletes_entity e op s E"
  shows "filter (\<lambda>v. v_model_id v = E) (model_views (step e op s)) =
         filter (\<lambda>v. v_model_id v = E) (model_views s)"
proof (cases op)
  case (Delete_model idp uid)
  from delete_model_tables [of e idp uid s] show ?thesis
  proof
    assume "fst (delete_model e idp uid s) = s"
    with Delete_model show ?thesis by simp
  next
    assume "\<exists>mid. idp = Some mid \<and> fst (snd (delete_model e idp uid s)) = 200 \<and>
      fst (delete_model e idp uid s) = delete_model_cascade mid s"
    then obtain mid where mid: "idp = Some mid"
      and ok: "fst (snd (delete_model e idp uid s)) = 200"
      and st: "fst (delete_model e idp uid s) = delete_model_cascade mid s" by blast
    have "mid \<noteq> E" using assms Delete_model mid ok by auto
    with st Delete_model show ?thesis by (simp add: delete_model_cascade_other)
  qed
qed simp_all

text \<open>An entity that is still there after an operation was not deleted by it.\<close>

lemma still_there_not_deleted:
  assumes "model_by_id (step e op s) E \<noteq> None"
  shows "\<not> deletes_entity e op s E"
proof (cases op)
  case (Delete_model idp uid)
  show ?thesis
  proof
    assume d: "deletes_entity e op s E"
    then have "idp = Some E" and "fst (snd (delete_model e idp uid s)) = 200"
      using Delete_model by auto
    then have "step e op s = delete_model_cascade E s"
      using Delete_model by (auto simp: delete_model_def split: option.splits if_splits)
    then have "model_by_id (step e op s) E = None"
      by (simp add: model_by_id_def delete_model_cascade_def find_None_iff)
    with assms show False by simp
  qed
qed simp_all

subsection \<open>The triggers keep counter and rows in step\<close>

text \<open>
  An insert into a fact table adds one row for the model and, through
  \<open>update_model_counts\<close>, one to the model's counter of that kind.
\<close>

lemma insert_like_in_step:
  assumes "insert_like e mid uid s = Inr s'" and "model_by_id s mid = Some m"
  shows "map_option like_count (model_by_id s' mid) = Some (like_count m + 1) \<and>
         length (filter (\<lambda>l. l_model_id l = mid) (likes s')) =
         length (filter (\<lambda>l. l_model_id l = mid) (likes s)) + 1"
  using assms
  by (auto simp: insert_like_def model_by_id_update_model_counts split: if_splits)

lemma insert_comment_in_step:
  assumes "insert_comment e c mid uid s = Inr s'" and "model_by_id s mid = Some m"
  shows "map_option comment_count (model_by_id s' mid) = Some (comment_count m + 1) \<and>
         length (filter (\<lambda>c. c_model_id c = mid) (comments s')) =
         length (filter (\<lambda>c. c_model_id c = mid) (comments s)) + 1"
  using assms
  by (auto simp: insert_comment_def model_by_id_update_model_counts split: if_splits)

lemma insert_download_in_step:
  assumes "insert_download e mid uid ip ua s = Inr s'" and "model_by_id s mid = Some m"
  shows "map_option download_count (model_by_id s' mid) = Some (download_count m + 1) \<and>
         length (filter (\<lambda>d. d_model_id d = mid) (downloads s')) =
         length (filter (\<lambda>d. d_model_id d = mid) (downloads s)) + 1"
  using assms
  by (auto simp: insert_download_def model_by_id_update_model_counts split: if_splits)

text \<open>
  On an insert into \<open>downloads\<close> the trigger function of the cleanup script does
  what \<open>update_model_counts\<close> does, so \<open>insert_download\<close> stands for the insert
  under either schema.
\<close>

lemma download_triggers_agree:
  "update_model_download_count INSERT mid s = update_model_counts INSERT Downloads mid s"
  by (simp add: update_model_download_count_def update_model_counts_def)

text \<open>
  The explicit increment of \<^verbatim>\<open>GET /:id\<close> is relative: one more than the stored
  value, whatever the handler has fetched. The DELETE branch of the cleanup script's
  trigger stops at zero.
\<close>

lemma get_model_by_id_relative:
  assumes "model_by_id s mid = Some m" "\<not> db_read_fails e" "\<not> models_write_fails e"
  shows "map_option view_count (model_by_id (fst (get_model_by_id e mid s)) mid) =
         Some (view_count m + 1)"
  using assms by (simp add: get_model_by_id_def model_by_id_update_models)

lemma update_model_download_count_floor:
  assumes "model_by_id (update_model_download_count DELETE mid s) mid = Some m'"
  shows "0 \<le> download_count m'"
proof -
  have "model_by_id (update_model_download_count DELETE mid s) mid =
        map_option (\<lambda>m. m\<lparr>download_count := max (download_count m - 1) 0\<rparr>) (model_by_id s mid)"
    by (simp add: update_model_download_count_def model_by_id_update_models)
  with assms show ?thesis by auto
qed

subsection \<open>Responses of the handlers when a write fails\<close>







subsection \<open>Rows along an execution\<close>

lemma exec_rows_kept:
  assumes "entity_kept E ops s"
  shows "prefix (filter (\<lambda>d. d_model_id d = E) (downloads s))
                (filter (\<lambda>d. d_model_id d = E) (downloads (exec ops s))) \<and>
         filter (\<lambda>v. v_model_id v = E) (model_views (exec ops s)) =
         filter (\<lambda>v. v_model_id v = E) (model_views s)"
  using assms
proof (induction ops arbitrary: s)
  case Nil
  then show ?case by simp
next
  case (Cons eo ops)
  have nd: "\<not> deletes_entity (fst eo) (snd eo) s E"
    using Cons.prems by simp
  have rest: "entity_kept E ops (step (fst eo) (snd eo) s)"
    using Cons.prems by simp
  note ih = Cons.IH [OF rest]
  have "prefix (filter (\<lambda>d. d_model_id d = E) (downloads s))
          (filter (\<lambda>d. d_model_id d = E) (downloads (step (fst eo) (snd eo) s)))"
    using step_downloads [OF nd] .
  with ih have "prefix (filter (\<lambda>d. d_model_id d = E) (downloads s))
          (filter (\<lambda>d. d_model_id d = E) (downloads (exec (eo # ops) s)))"
    by (auto intro: prefix_order.trans)
  moreover have "filter (\<lambda>v. v_model_id v = E) (model_views (exec (eo # ops) s)) =
         filter (\<lambda>v. v_model_id v = E) (model_views s)"
    using ih step_model_views [OF nd] by simp
  ultimately show ?case by simp
qed

section \<open>Counters and fact rows\<close>

text \<open>
  Claim C1 says that every cached counter equals the number of fact rows of its kind,
  and in particular that \<^verbatim>\<open>GET /:id\<close> keeps \<open>view_count\<close> equal to the number
  of \<open>model_views\<close> rows. The handler increments \<open>view_count\<close> and inserts no row
  (no operation inserts one): on a model without views the first request leaves
  \<open>view_count = 1\<close> and the table of views empty.
\<close>

theorem view_counted_without_view_row:
  "map_option view_count (model_by_id castle_store 1) = Some 0 \<and>
   model_views castle_store = [] \<and>
   fst (snd (get_model_by_id ok_env 1 castle_store)) = 200 \<and>
   map_option view_count (model_by_id (fst (get_model_by_id ok_env 1 castle_store)) 1) = Some 1 \<and>
   model_views (fst (get_model_by_id ok_env 1 castle_store)) = []"
  by (simp add: get_model_by_id_def model_by_id_def update_models_def castle_store_def
      castle_def ok_env_def)

text \<open>
  Claim C2 says that every counter increment is relative to the stored value.
  \<open>handleDownload\<close> writes the value its page fetched earlier, plus one: after two
  downloads by another user the stored counter is 2, there are two download rows, and
  a page that was loaded before them leaves the counter at 1 with three rows.
\<close>

theorem stale_page_overwrites_download_count:
  "exec [(ok_env, Download_model other_download), (ok_env, Download_model other_download)]
     castle_store =
     \<lparr>models = [castle\<lparr>download_count := 2\<rparr>], comments = [], likes = [], model_views = [],
      downloads = [\<lparr>d_id = 1, d_model_id = 1, d_user_id = Some 43,
                    d_ip_address = Some ''10.0.0.1'', d_user_agent = Some ''curl''\<rparr>,
                   \<lparr>d_id = 2, d_model_id = 1, d_user_id = Some 43,
                    d_ip_address = Some ''10.0.0.1'', d_user_agent = Some ''curl''\<rparr>]\<rparr> \<and>
   download_count (page_model stale_page) = 0 \<and>
   handleDownload ok_env stale_page
     (exec [(ok_env, Download_model other_download), (ok_env, Download_model other_download)]
        castle_store) =
     (\<lparr>models = [castle\<lparr>download_count := 1\<rparr>], comments = [], likes = [], model_views = [],
       downloads = [\<lparr>d_id = 1, d_model_id = 1, d_user_id = Some 43,
                     d_ip_address = Some ''10.0.0.1'', d_user_agent = Some ''curl''\<rparr>,
                    \<lparr>d_id = 2, d_model_id = 1, d_user_id = Some 43,
                     d_ip_address = Some ''10.0.0.1'', d_user_agent = Some ''curl''\<rparr>,
                    \<lparr>d_id = 3, d_model_id = 1, d_user_id = Some 42,
                     d_ip_address = None, d_user_agent = None\<rparr>]\<rparr>,
      Toast_success ''Download started!'')"
  by (simp add: download_model_def handleDownload_def insert_download_def model_by_id_def
      update_model_counts_def update_models_def castle_store_def castle_def other_download_def
      stale_page_def ok_env_def js_or_def falsy_def or_zero_def)

text \<open>
  Claim C3 says that the DELETE branch of the counter trigger never takes a counter
  below zero. \<open>update_model_counts\<close> subtracts one without a floor: where the
  counter is 0 and a like row exists, the unlike leaves \<open>like_count = - 1\<close>; so
  does the trigger function wherever it is run at 0, for likes and for comments.
\<close>

theorem unlike_below_zero:
  "map_option like_count (model_by_id drifted_store 1) = Some 0 \<and>
   likes drifted_store = [like_42] \<and>
   like_model ok_env (Some 1) 42 drifted_store =
     (\<lparr>models = [castle\<lparr>like_count := - 1\<rparr>], comments = [], likes = [], model_views = [],
       downloads = []\<rparr>, (200, Liked ''Model unliked'' False)) \<and>
   map_option like_count (model_by_id (update_model_counts DELETE Likes 1 castle_store) 1) =
     Some (- 1) \<and>
   map_option comment_count (model_by_id (update_model_counts DELETE Comments 1 castle_store) 1) =
     Some (- 1)"
  by (simp add: like_model_def delete_like_def model_by_id_def update_model_counts_def
      update_models_def drifted_store_def castle_store_def castle_def like_42_def ok_env_def)

section \<open>Failures of the tracking writes\<close>



section \<open>Likes\<close>

text \<open>
  Claim C5. In a store that meets \<^verbatim>\<open>UNIQUE(model_id, user_id)\<close>, every execution
  of the operations, and every interleaving of like requests, leaves at most one like
  row per model and user. An insert of a second like for a pair is rejected by the
  store; the handler that attempts it (it can, when another request of the same user
  has created the like since this one looked) answers 500 and leaves the store,
  hence the like counter, unchanged.
\<close>

theorem second_like_rejected:
  assumes "unique_likes s"
  shows "unique_likes (exec ops s) \<and>
     length (filter (\<lambda>l. l_model_id l = E \<and> l_user_id l = A) (likes (exec ops s))) \<le> 1 \<and>
     unique_likes (snd (run_schedule e sched (ts, s))) \<and>
     length (filter (\<lambda>l. l_model_id l = E \<and> l_user_id l = A)
               (likes (snd (run_schedule e sched (ts, s))))) \<le> 1 \<and>
     (find (\<lambda>l. l_model_id l = E \<and> l_user_id l = A) (likes s) \<noteq> None \<longrightarrow>
        isl (insert_like e E A s) \<and>
        like_model_step e (Some E) A (L_like_read E None) s =
          (L_done (500, Error ''Internal server error''), s))"
proof -
  have le1: "length (filter (\<lambda>l. l_model_id l = E \<and> l_user_id l = A) (likes t)) \<le> 1"
    if "unique_likes t" for t
    using distinct_map_filter_le1 [of "\<lambda>l. (l_model_id l, l_user_id l)" "likes t" "(E, A)"] that
    by (simp add: unique_likes_def)
  have u1: "unique_likes (exec ops s)"
    using assms by (rule unique_likes_exec)
  have u2: "unique_likes (snd (run_schedule e sched (ts, s)))"
    using unique_likes_run_schedule [of "(ts, s)" e sched] assms by simp
  have rej: "isl (insert_like e E A s) \<and>
        like_model_step e (Some E) A (L_like_read E None) s =
          (L_done (500, Error ''Internal server error''), s)"
    if "find (\<lambda>l. l_model_id l = E \<and> l_user_id l = A) (likes s) \<noteq> None"
    using that by (auto simp: insert_like_def)
  show ?thesis using u1 u2 le1 [OF u1] le1 [OF u2] rej by blast
qed

theorem second_like_rejected_witness:
  "unique_likes liked_store \<and>
   find (\<lambda>l. l_model_id l = 1 \<and> l_user_id l = 42) (likes liked_store) \<noteq> None \<and>
   unique_likes (exec [(ok_env, Like_model (Some 1) 43)] liked_store) \<and>
   isl (insert_like ok_env 1 42 liked_store) \<and>
   like_model_step ok_env (Some 1) 42 (L_like_read 1 None) liked_store =
     (L_done (500, Error ''Internal server error''), liked_store) \<and>
   map_option like_count (model_by_id liked_store 1) = Some 1"
proof -
  have h: "unique_likes liked_store"
    by (simp add: unique_likes_def liked_store_def)
  have f: "find (\<lambda>l. l_model_id l = 1 \<and> l_user_id l = 42) (likes liked_store) \<noteq> None"
    by (simp add: liked_store_def like_42_def)
  have c: "map_option like_count (model_by_id liked_store 1) = Some 1"
    by (simp add: model_by_id_def liked_store_def castle_def)
  from second_like_rejected [OF h, of "[(ok_env, Like_model (Some 1) 43)]" 1 42 ok_env "[]" "[]"]
  show ?thesis using h f c by blast
qed

text \<open>
  Claim C6, as amended. A public entity \<open>E\<close> whose like counter is zero, and a user
  \<open>A\<close> who has no like on \<open>E\<close>: the like operation of \<open>A\<close> on \<open>E\<close> answers "liked" and leaves
  \<open>like_count = 1\<close>; the same operation once more answers "unliked" and leaves
  \<open>like_count = 0\<close>. Both requests reach the store (no failure of a read or of the
  write to the likes table).
\<close>

theorem like_unlike_round_trip:
  assumes E: "model_by_id s E = Some m" and pub: "m_is_public m"
    and zero: "like_count m = 0"
    and fresh: "find (\<lambda>l. l_model_id l = E \<and> l_user_id l = A) (likes s) = None"
    and ok1: "\<not> db_read_fails e1" "\<not> fact_write_fails e1"
    and ok2: "\<not> db_read_fails e2" "\<not> fact_write_fails e2"
  shows "\<exists>s1 s2.
     like_model e1 (Some E) A s = (s1, (200, Liked ''Model liked'' True)) \<and>
     map_option like_count (model_by_id s1 E) = Some 1 \<and>
     like_model e2 (Some E) A s1 = (s2, (200, Liked ''Model unliked'' False)) \<and>
     map_option like_count (model_by_id s2 E) = Some 0"
proof -
  define new where "new = \<lparr>l_id = fresh_id (map l_id (likes s)), l_model_id = E, l_user_id = A\<rparr>"
  define s1 where "s1 = update_model_counts INSERT Likes E (s\<lparr>likes := likes s @ [new]\<rparr>)"
  define s2 where "s2 = update_model_counts DELETE Likes E (s1\<lparr>likes := likes s\<rparr>)"
  have pubfind: "find (\<lambda>m. m_id m = E \<and> m_is_public m) (models s) = Some m"
    using E pub by (simp add: model_by_id_def find_conj_first)
  have ins: "insert_like e1 E A s = Inr s1"
    using E fresh ok1 by (simp add: insert_like_def s1_def new_def)
  have step1: "like_model e1 (Some E) A s = (s1, (200, Liked ''Model liked'' True))"
    using ok1 pubfind fresh ins by (simp add: like_model_def)
  have m1: "model_by_id s1 E = Some (m\<lparr>like_count := 1\<rparr>)"
    using E zero by (simp add: s1_def model_by_id_update_model_counts)
  have pubfind1: "find (\<lambda>m. m_id m = E \<and> m_is_public m) (models s1) = Some (m\<lparr>like_count := 1\<rparr>)"
    using m1 pub by (simp add: model_by_id_def find_conj_first)
  have likes1: "likes s1 = likes s @ [new]"
    by (simp add: s1_def)
  have found: "find (\<lambda>l. l_model_id l = E \<and> l_user_id l = A) (likes s1) = Some new"
    using fresh by (simp add: likes1 find_append_none new_def)
  have gone: "filter (\<lambda>l. l_id l = l_id new) (likes s1) = [new]"
    by (simp add: likes1 new_def filter_id_fresh)
  have kept: "filter (\<lambda>l. l_id l \<noteq> l_id new) (likes s1) = likes s"
    by (simp add: likes1 new_def filter_id_not_fresh)
  have newE: "l_model_id new = E"
    by (simp add: new_def)
  have del: "delete_like e2 (l_id new) s1 = Inr s2"
    using ok2 by (simp add: delete_like_def gone kept s2_def newE)
  have step2: "like_model e2 (Some E) A s1 = (s2, (200, Liked ''Model unliked'' False))"
    using ok2 pubfind1 found del by (simp add: like_model_def)
  have m2: "map_option like_count (model_by_id s2 E) = Some 0"
    using m1 by (simp add: s2_def model_by_id_update_model_counts)
  show ?thesis using step1 m1 step2 m2 by simp
qed

theorem like_unlike_round_trip_witness:
  "model_by_id castle_store 1 = Some castle \<and> m_is_public castle \<and> like_count castle = 0 \<and>
   find (\<lambda>l. l_model_id l = 1 \<and> l_user_id l = 42) (likes castle_store) = None \<and>
   \<not> db_read_fails ok_env \<and> \<not> fact_write_fails ok_env \<and>
   (\<exists>s1 s2.
     like_model ok_env (Some 1) 42 castle_store = (s1, (200, Liked ''Model liked'' True)) \<and>
     map_option like_count (model_by_id s1 1) = Some 1 \<and>
     like_model ok_env (Some 1) 42 s1 = (s2, (200, Liked ''Model unliked'' False)) \<and>
     map_option like_count (model_by_id s2 1) = Some 0)"
proof -
  have h1: "model_by_id castle_store 1 = Some castle"
    by (simp add: model_by_id_def castle_store_def castle_def)
  have h2: "m_is_public castle" and h3: "like_count castle = 0"
    by (simp_all add: castle_def)
  have h4: "find (\<lambda>l. l_model_id l = 1 \<and> l_user_id l = 42) (likes castle_store) = None"
    by (simp add: castle_store_def)
  have h5: "\<not> db_read_fails ok_env" and h6: "\<not> fact_write_fails ok_env"
    by (simp_all add: ok_env_def)
  from like_unlike_round_trip [OF h1 h2 h3 h4 h5 h6 h5 h6]
  show ?thesis using h1 h2 h3 h4 h5 h6 by blast
qed

text \<open>
  Claim C6 as stated is about every entity. A private one is not found by the
  handler (\<^verbatim>\<open>isPublic: true\<close>): the villa has all counters at zero, the like
  request of user 42 is answered 404, the store is as before and \<open>like_count\<close> is
  still 0, not 1.
\<close>

theorem like_on_private_model_is_404:
  "model_by_id shop_store 2 = Some villa \<and>
   download_count villa = 0 \<and> view_count villa = 0 \<and> like_count villa = 0 \<and>
   comment_count villa = 0 \<and> likes shop_store = [] \<and>
   like_model ok_env (Some 2) 42 shop_store = (shop_store, (404, Error ''Model not found'')) \<and>
   map_option like_count (model_by_id (fst (like_model ok_env (Some 2) 42 shop_store)) 2) =
     Some 0"
  by (simp add: like_model_def model_by_id_def shop_store_def castle_def villa_def statue_def
      ok_env_def)

text \<open>
  Claim C9. The like endpoint is a toggle. For a user and an existing public model,
  in a store that meets the uniqueness constraint and with reads and writes that do
  not fail: the request is answered 200; \<open>liked\<close> is true exactly when the user had
  no like on the model, and then one row for the pair was appended; when the user had
  a like, that row was deleted; and \<open>liked\<close> says whether a like of the pair exists
  afterwards.
\<close>

theorem like_toggle:
  assumes pub: "find (\<lambda>m. m_id m = E \<and> m_is_public m) (models s) = Some m"
    and uniq: "unique_likes s"
    and ok: "\<not> db_read_fails e" "\<not> fact_write_fails e"
  shows "\<exists>s' msg liked.
     like_model e (Some E) A s = (s', (200, Liked msg liked)) \<and>
     liked = (find (\<lambda>l. l_model_id l = E \<and> l_user_id l = A) (likes s) = None) \<and>
     (liked \<longrightarrow> (\<exists>row. likes s' = likes s @ [row] \<and> l_model_id row = E \<and> l_user_id row = A)) \<and>
     (\<forall>x. find (\<lambda>l. l_model_id l = E \<and> l_user_id l = A) (likes s) = Some x \<longrightarrow>
        likes s' = filter (\<lambda>l. l_id l \<noteq> l_id x) (likes s)) \<and>
     liked = (find (\<lambda>l. l_model_id l = E \<and> l_user_id l = A) (likes s') \<noteq> None)"
proof (cases "find (\<lambda>l. l_model_id l = E \<and> l_user_id l = A) (likes s)")
  case None
  define row where "row = \<lparr>l_id = fresh_id (map l_id (likes s)), l_model_id = E, l_user_id = A\<rparr>"
  define s' where "s' = update_model_counts INSERT Likes E (s\<lparr>likes := likes s @ [row]\<rparr>)"
  have fk: "model_by_id s E \<noteq> None"
    using find_conj_Some_first [OF pub] by (simp add: model_by_id_def)
  have ins: "insert_like e E A s = Inr s'"
    using fk None ok by (simp add: insert_like_def s'_def row_def)
  have resp: "like_model e (Some E) A s = (s', (200, Liked ''Model liked'' True))"
    using ok pub None ins by (simp add: like_model_def)
  have l': "likes s' = likes s @ [row]"
    by (simp add: s'_def)
  have after: "find (\<lambda>l. l_model_id l = E \<and> l_user_id l = A) (likes s') = Some row"
    using None by (simp add: l' find_append_none row_def)
  have "l_model_id row = E" "l_user_id row = A"
    by (simp_all add: row_def)
  with resp l' after None show ?thesis by auto
next
  case (Some x)
  define s' where "s' = fold (\<lambda>l. update_model_counts DELETE Likes (l_model_id l))
      (filter (\<lambda>l. l_id l = l_id x) (likes s))
      (s\<lparr>likes := filter (\<lambda>l. l_id l \<noteq> l_id x) (likes s)\<rparr>)"
  have xin: "x \<in> set (likes s)" and xP: "l_model_id x = E" "l_user_id x = A"
    using Some by (auto simp: find_Some_iff)
  have nonempty: "filter (\<lambda>l. l_id l = l_id x) (likes s) \<noteq> []"
    using xin by (auto simp: filter_empty_conv)
  have del: "delete_like e (l_id x) s = Inr s'"
    using ok nonempty by (simp add: delete_like_def s'_def)
  have resp: "like_model e (Some E) A s = (s', (200, Liked ''Model unliked'' False))"
    using ok pub Some del by (simp add: like_model_def)
  have l': "likes s' = filter (\<lambda>l. l_id l \<noteq> l_id x) (likes s)"
    by (simp add: s'_def)
  have after: "find (\<lambda>l. l_model_id l = E \<and> l_user_id l = A) (likes s') = None"
  proof -
    have "\<not> (l_model_id y = E \<and> l_user_id y = A)" if "y \<in> set (likes s')" for y
    proof
      assume yP: "l_model_id y = E \<and> l_user_id y = A"
      from that have yin: "y \<in> set (likes s)" and yid: "l_id y \<noteq> l_id x"
        by (auto simp: l')
      from unique_likes_same_pair [OF uniq yin xin] yP xP have "y = x" by simp
      with yid show False by simp
    qed
    then show ?thesis by (simp add: find_None_iff)
  qed
  from resp l' after Some show ?thesis by auto
qed

theorem like_toggle_witness:
  "find (\<lambda>m. m_id m = 1 \<and> m_is_public m) (models liked_store) = Some (castle\<lparr>like_count := 1\<rparr>) \<and>
   unique_likes liked_store \<and> \<not> db_read_fails ok_env \<and> \<not> fact_write_fails ok_env \<and>
   find (\<lambda>l. l_model_id l = 1 \<and> l_user_id l = 42) (likes liked_store) = Some like_42 \<and>
   find (\<lambda>l. l_model_id l = 1 \<and> l_user_id l = 43) (likes liked_store) = None \<and>
   (\<exists>s' msg. like_model ok_env (Some 1) 42 liked_store = (s', (200, Liked msg False)) \<and>
      likes s' = [] \<and>
      find (\<lambda>l. l_model_id l = 1 \<and> l_user_id l = 42) (likes s') = None) \<and>
   (\<exists>s' msg row. like_model ok_env (Some 1) 43 liked_store = (s', (200, Liked msg True)) \<and>
      likes s' = [like_42, row] \<and> l_model_id row = 1 \<and> l_user_id row = 43 \<and>
      find (\<lambda>l. l_model_id l = 1 \<and> l_user_id l = 43) (likes s') \<noteq> None)"
proof -
  have h1: "find (\<lambda>m. m_id m = 1 \<and> m_is_public m) (models liked_store) =
      Some (castle\<lparr>like_count := 1\<rparr>)"
    by (simp add: liked_store_def castle_def)
  have h2: "unique_likes liked_store"
    by (simp add: unique_likes_def liked_store_def)
  have h3: "\<not> db_read_fails ok_env" and h4: "\<not> fact_write_fails ok_env"
    by (simp_all add: ok_env_def)
  have f42: "find (\<lambda>l. l_model_id l = 1 \<and> l_user_id l = 42) (likes liked_store) = Some like_42"
    by (simp add: liked_store_def like_42_def)
  have f43: "find (\<lambda>l. l_model_id l = 1 \<and> l_user_id l = 43) (likes liked_store) = None"
    by (simp add: liked_store_def like_42_def)
  have gone: "filter (\<lambda>l. l_id l \<noteq> l_id like_42) (likes liked_store) = []"
    by (simp add: liked_store_def)
  have ls: "likes liked_store = [like_42]"
    by (simp add: liked_store_def)
  from like_toggle [OF h1 h2 h3 h4, of 42] f42 gone
  have a: "\<exists>s' msg. like_model ok_env (Some 1) 42 liked_store = (s', (200, Liked msg False)) \<and>
      likes s' = [] \<and>
      find (\<lambda>l. l_model_id l = 1 \<and> l_user_id l = 42) (likes s') = None"
    by auto
  from like_toggle [OF h1 h2 h3 h4, of 43] f43 ls
  have b: "\<exists>s' msg row. like_model ok_env (Some 1) 43 liked_store = (s', (200, Liked msg True)) \<and>
      likes s' = [like_42, row] \<and> l_model_id row = 1 \<and> l_user_id row = 43 \<and>
      find (\<lambda>l. l_model_id l = 1 \<and> l_user_id l = 43) (likes s') \<noteq> None"
    by auto
  show ?thesis
    by (intro conjI) (fact h1, fact h2, fact h3, fact h4, fact f42, fact f43, fact a, fact b)
qed

text \<open>
  Claim C8, as amended. \<open>N\<close> requests of distinct users, none of whom has liked the public
  model \<open>E\<close>, run concurrently, statement by statement, in any order given by a
  schedule that lets every request run its three statements: every request is
  answered "liked", the like counter of \<open>E\<close> has grown by exactly \<open>N\<close>, and so
  has the number of like rows of \<open>E\<close>.
\<close>

theorem concurrent_likes_counted:
  assumes m: "model_by_id s E = Some m" "m_is_public m"
    and d: "distinct us"
    and nl: "\<forall>u \<in> set us. find (\<lambda>l. l_model_id l = E \<and> l_user_id l = u) (likes s) = None"
    and ok: "\<not> db_read_fails e" "\<not> fact_write_fails e"
    and fair: "\<forall>i < length us. 3 \<le> count_list sched i"
  shows "\<exists>ts' s'.
     run_schedule e sched (map (\<lambda>u. (Some E, u, L_start)) us, s) = (ts', s') \<and>
     map (\<lambda>t. snd (snd t)) ts' =
       replicate (length us) (L_done (200, Liked ''Model liked'' True)) \<and>
     map_option like_count (model_by_id s' E) = Some (like_count m + int (length us)) \<and>
     length (filter (\<lambda>l. l_model_id l = E) (likes s')) =
       length (filter (\<lambda>l. l_model_id l = E) (likes s)) + length us"
proof -
  let ?ts0 = "map (\<lambda>u. (Some E, u, L_start)) us"
  let ?r0 = "length (filter (\<lambda>l. l_model_id l = E) (likes s))"
  obtain ts' s' where run: "run_schedule e sched (?ts0, s) = (ts', s')"
    by (cases "run_schedule e sched (?ts0, s)") auto
  have none0: "filter answered ?ts0 = []"
    by (simp add: filter_empty_conv answered_def)
  have inv0: "likes_inv E us (like_count m) ?r0 (?ts0, s)"
    using m nl by (simp add: likes_inv_def none0)
  have inv: "likes_inv E us (like_count m) ?r0 (ts', s')"
    using likes_inv_run_schedule [OF inv0 d ok, of sched] run by simp
  have len: "length ts' = length us"
    using inv by (simp add: likes_inv_def)
  have fin: "is_done (snd (snd (ts' ! j)))" if j: "j < length us" for j
  proof -
    have "min 3 (pc_rank (snd (snd (fst (?ts0, s) ! j))) + count_list sched j)
          \<le> pc_rank (snd (snd (fst (run_schedule e sched (?ts0, s)) ! j)))"
      by (rule run_schedule_rank) (simp add: j)
    with fair j run show ?thesis by (simp add: pc_rank_done)
  qed
  have pcs: "snd (snd (ts' ! j)) = L_done (200, Liked ''Model liked'' True)"
    if j: "j < length us" for j
  proof -
    have r: "like_req_inv E s' (ts' ! j)" using inv j by (simp add: likes_inv_def)
    obtain idp u pc where t: "ts' ! j = (idp, u, pc)" by (cases "ts' ! j") auto
    from fin [OF j] t obtain resp where "pc = L_done resp" by (cases pc) auto
    with r t show ?thesis by simp
  qed
  have "answered t" if "t \<in> set ts'" for t
  proof -
    from that obtain j where "j < length ts'" "ts' ! j = t"
      by (auto simp: in_set_conv_nth)
    with fin [of j] len show ?thesis by (simp add: answered_def)
  qed
  then have all: "filter answered ts' = ts'"
    by (simp add: filter_id_conv)
  have "map (\<lambda>t. snd (snd t)) ts' = replicate (length us) (L_done (200, Liked ''Model liked'' True))"
    using pcs len by (simp add: list_eq_iff_nth_eq)
  moreover have "map_option like_count (model_by_id s' E) = Some (like_count m + int (length us))"
    using inv all len by (auto simp: likes_inv_def)
  moreover have "length (filter (\<lambda>l. l_model_id l = E) (likes s')) = ?r0 + length us"
    using inv all len by (auto simp: likes_inv_def)
  ultimately show ?thesis using run by blast
qed

theorem concurrent_likes_counted_witness:
  "model_by_id castle_store 1 = Some castle \<and> m_is_public castle \<and> distinct [42, 43 :: ident] \<and>
   \<not> db_read_fails ok_env \<and> \<not> fact_write_fails ok_env \<and>
   count_list [0, 1, 1, 0, 0, 1 :: nat] 0 = 3 \<and> count_list [0, 1, 1, 0, 0, 1 :: nat] 1 = 3 \<and>
   (\<exists>ts' s'.
     run_schedule ok_env [0, 1, 1, 0, 0, 1]
       (map (\<lambda>u. (Some 1, u, L_start)) [42, 43], castle_store) = (ts', s') \<and>
     map (\<lambda>t. snd (snd t)) ts' =
       [L_done (200, Liked ''Model liked'' True), L_done (200, Liked ''Model liked'' True)] \<and>
     map_option like_count (model_by_id s' 1) = Some 2 \<and>
     length (filter (\<lambda>l. l_model_id l = 1) (likes s')) = 2)"
proof -
  have h1: "model_by_id castle_store 1 = Some castle"
    by (simp add: model_by_id_def castle_store_def castle_def)
  have h2: "m_is_public castle" by (simp add: castle_def)
  have h3: "distinct [42, 43 :: ident]" by simp
  have h4: "\<forall>u \<in> set [42, 43 :: ident].
      find (\<lambda>l. l_model_id l = 1 \<and> l_user_id l = u) (likes castle_store) = None"
    by (simp add: castle_store_def)
  have h5: "\<not> db_read_fails ok_env" and h6: "\<not> fact_write_fails ok_env"
    by (simp_all add: ok_env_def)
  have c0: "count_list [0, 1, 1, 0, 0, 1 :: nat] 0 = 3"
    and c1: "count_list [0, 1, 1, 0, 0, 1 :: nat] 1 = 3" by simp_all
  have h7: "\<forall>i < length [42, 43 :: ident]. 3 \<le> count_list [0, 1, 1, 0, 0, 1 :: nat] i"
    using c0 c1 by (auto simp: less_Suc_eq numeral_2_eq_2)
  have l0: "like_count castle = 0" and e0: "likes castle_store = []"
    by (simp_all add: castle_def castle_store_def)
  from concurrent_likes_counted [OF h1 h2 h3 h4 h5 h6 h7]
  obtain ts' s' where
    r: "run_schedule ok_env [0, 1, 1, 0, 0, 1]
          (map (\<lambda>u. (Some 1, u, L_start)) [42, 43], castle_store) = (ts', s')"
    and p: "map (\<lambda>t. snd (snd t)) ts' =
          replicate (length [42, 43 :: ident]) (L_done (200, Liked ''Model liked'' True))"
    and c: "map_option like_count (model_by_id s' 1) =
          Some (like_count castle + int (length [42, 43 :: ident]))"
    and n: "length (filter (\<lambda>l. l_model_id l = 1) (likes s')) =
          length (filter (\<lambda>l. l_model_id l = 1) (likes castle_store)) + length [42, 43 :: ident]"
    by blast
  have p': "map (\<lambda>t. snd (snd t)) ts' =
      [L_done (200, Liked ''Model liked'' True), L_done (200, Liked ''Model liked'' True)]"
    using p by simp
  have c': "map_option like_count (model_by_id s' 1) = Some 2"
    using c by (simp add: l0)
  have n': "length (filter (\<lambda>l. l_model_id l = 1) (likes s')) = 2"
    using n by (simp add: e0)
  show ?thesis
    by (intro conjI exI) (fact h1, fact h2, fact h3, fact h5, fact h6, fact c0, fact c1,
      fact r, fact p', fact c', fact n')
qed

text \<open>
  Claim C8 as stated is about every entity. On the private villa two concurrent like
  requests of users 42 and 43 are both answered 404, under the schedule of the
  witness above; no like row is created and \<open>like_count\<close> stays 0 instead of
  growing by 2.
\<close>

theorem concurrent_likes_on_private_model:
  "model_by_id shop_store 2 = Some villa \<and> like_count villa = 0 \<and>
   run_schedule ok_env [0, 1, 1, 0, 0, 1]
     (map (\<lambda>u. (Some 2, u, L_start)) [42, 43], shop_store) =
     ([(Some 2, 42, L_done (404, Error ''Model not found'')),
       (Some 2, 43, L_done (404, Error ''Model not found''))], shop_store) \<and>
   map_option like_count
     (model_by_id (snd (run_schedule ok_env [0, 1, 1, 0, 0, 1]
        (map (\<lambda>u. (Some 2, u, L_start)) [42, 43], shop_store))) 2) = Some 0"
  by (simp add: model_by_id_def shop_store_def castle_def villa_def statue_def ok_env_def)

section \<open>Downloads\<close>

text \<open>
  Claim C7, as amended. Download rows and view rows of an entity are kept as long as
  the entity is: along every execution that does not delete \<open>E\<close> (none of its
  operations is a \<^verbatim>\<open>DELETE /:id\<close> for \<open>E\<close> that is answered 200), the download
  rows of \<open>E\<close> and the view rows of \<open>E\<close> at the start are still there at the
  end, in their order, before any later ones. (A delete of \<open>E\<close> that is refused,
  the deletion of other models, unliking, and every other operation leave them
  alone.)
\<close>

theorem download_and_view_rows_kept:
  assumes "entity_kept E ops s"
  shows "prefix (filter (\<lambda>d. d_model_id d = E) (downloads s))
                (filter (\<lambda>d. d_model_id d = E) (downloads (exec ops s))) \<and>
         prefix (filter (\<lambda>v. v_model_id v = E) (model_views s))
                (filter (\<lambda>v. v_model_id v = E) (model_views (exec ops s)))"
  using exec_rows_kept [OF assms] by simp

theorem download_and_view_rows_kept_witness:
  "entity_kept 1 [(ok_env, Download_model other_download),
                  (ok_env, Delete_model (Some 1) 43),
                  (ok_env, Delete_model (Some 2) 7),
                  (ok_env, Like_model (Some 1) 42)] downloaded_store \<and>
   delete_model ok_env (Some 1) 43 downloaded_store =
     (downloaded_store, (404, Error ''Model not found'')) \<and>
   prefix (filter (\<lambda>d. d_model_id d = 1) (downloads downloaded_store))
     (filter (\<lambda>d. d_model_id d = 1)
        (downloads (exec [(ok_env, Download_model other_download),
                          (ok_env, Delete_model (Some 1) 43),
                          (ok_env, Delete_model (Some 2) 7),
                          (ok_env, Like_model (Some 1) 42)] downloaded_store))) \<and>
   prefix (filter (\<lambda>v. v_model_id v = 1) (model_views downloaded_store))
     (filter (\<lambda>v. v_model_id v = 1)
        (model_views (exec [(ok_env, Download_model other_download),
                            (ok_env, Delete_model (Some 1) 43),
                            (ok_env, Delete_model (Some 2) 7),
                            (ok_env, Like_model (Some 1) 42)] downloaded_store))) \<and>
   filter (\<lambda>d. d_model_id d = 1) (downloads downloaded_store) \<noteq> []"
proof -
  have h: "entity_kept 1 [(ok_env, Download_model other_download),
                  (ok_env, Delete_model (Some 1) 43),
                  (ok_env, Delete_model (Some 2) 7),
                  (ok_env, Like_model (Some 1) 42)] downloaded_store"
    by (simp add: delete_model_def download_model_def insert_download_def model_by_id_def
        update_model_counts_def update_models_def downloaded_store_def castle_def
        other_download_def ok_env_def js_or_def falsy_def)
  have d: "delete_model ok_env (Some 1) 43 downloaded_store =
     (downloaded_store, (404, Error ''Model not found''))"
    by (simp add: delete_model_def downloaded_store_def castle_def ok_env_def)
  have n: "filter (\<lambda>d. d_model_id d = 1) (downloads downloaded_store) \<noteq> []"
    by (simp add: downloaded_store_def)
  from download_and_view_rows_kept [OF h] h d n
  show ?thesis by blast
qed

text \<open>
  Claim C7 as stated says that no operation ever deletes a download row. The deletion
  of a model does: after one download of the castle, its owner deletes it, and the
  download row is gone with it (\<^verbatim>\<open>ON DELETE CASCADE\<close>).
\<close>

theorem delete_model_removes_download_rows:
  "fst (download_model ok_env other_download castle_store) = downloaded_store \<and>
   downloads downloaded_store =
     [\<lparr>d_id = 1, d_model_id = 1, d_user_id = Some 43,
       d_ip_address = Some ''10.0.0.1'', d_user_agent = Some ''curl''\<rparr>] \<and>
   delete_model ok_env (Some 1) 7 downloaded_store =
     (\<lparr>models = [], comments = [], likes = [], model_views = [], downloads = []\<rparr>,
      (200, Message ''Model deleted successfully'')) \<and>
   downloads (step ok_env (Delete_model (Some 1) 7) downloaded_store) = []"
  by (simp add: download_model_def insert_download_def model_by_id_def update_model_counts_def
      update_models_def castle_store_def castle_def other_download_def downloaded_store_def
      ok_env_def js_or_def falsy_def delete_model_def delete_model_cascade_def)

text \<open>
  Claim C10, as amended. A model that is not free, and a user who is not its owner:
  the download request leaves the store as it is (no download row, no counter
  touched), and it is answered 403 when the model is public and the lookup succeeds,
  404 otherwise.
\<close>

theorem paid_download_rejected:
  assumes pk: "distinct (map m_id (models s))"
    and m: "model_by_id s (dr_modelId r) = Some m"
    and paid: "\<not> m_is_free m" and other: "m_user_id m \<noteq> dr_userId r"
  shows "download_model e r s =
     (s, if \<not> db_read_fails e \<and> m_is_public m
         then (403, Error ''This model requires payment'')
         else (404, Error ''Model not found or not public''))"
proof -
  have "find (\<lambda>m. m_id m = dr_modelId r \<and> m_is_public m) (models s) =
        (if m_is_public m then Some m else None)"
    using find_pk [OF pk] m by (simp add: model_by_id_def)
  then show ?thesis using paid other by (simp add: download_model_def)
qed

theorem paid_download_rejected_witness:
  "distinct (map m_id (models shop_store)) \<and>
   model_by_id shop_store (dr_modelId statue_request) = Some statue \<and>
   \<not> m_is_free statue \<and> m_user_id statue \<noteq> dr_userId statue_request \<and>
   download_model ok_env statue_request shop_store =
     (shop_store, (403, Error ''This model requires payment''))"
proof -
  have h1: "distinct (map m_id (models shop_store))"
    by (simp add: shop_store_def castle_def villa_def statue_def)
  have h2: "model_by_id shop_store (dr_modelId statue_request) = Some statue"
    by (simp add: model_by_id_def shop_store_def castle_def villa_def statue_def
        statue_request_def)
  have h3: "\<not> m_is_free statue" by (simp add: statue_def)
  have h4: "m_user_id statue \<noteq> dr_userId statue_request"
    by (simp add: statue_def statue_request_def)
  have pub: "\<not> db_read_fails ok_env \<and> m_is_public statue"
    by (simp add: ok_env_def statue_def)
  from paid_download_rejected [OF h1 h2 h3 h4, of ok_env] pub
  have "download_model ok_env statue_request shop_store =
     (shop_store, (403, Error ''This model requires payment''))" by simp
  with h1 h2 h3 h4 show ?thesis by blast
qed

text \<open>
  Claim C10 as stated says 403 for every non-free model. For a private one the
  handler's lookup (\<^verbatim>\<open>is_public = true\<close>) finds nothing, and the answer is 404.
\<close>

theorem private_paid_download_is_404:
  "model_by_id shop_store (dr_modelId villa_request) = Some villa \<and>
   \<not> m_is_free villa \<and> m_user_id villa \<noteq> dr_userId villa_request \<and>
   download_model ok_env villa_request shop_store =
     (shop_store, (404, Error ''Model not found or not public''))"
  by (simp add: download_model_def model_by_id_def shop_store_def castle_def villa_def
      statue_def villa_request_def ok_env_def)

end
